theory Spec2Isabelle
  imports Complex_Main
begin

section \<open>JavaScript building blocks\<close>

text \<open>
  Strings are lists of 8-bit characters, which stand for the UTF-16 code units below
  256. The white space of \<open>\s\<close> and of \<open>trim\<close> is the white space among these: the six
  ASCII blanks and the no-break space \<open>U+00A0\<close>. The other character classes of the
  source name ASCII ranges. The case mappings are modelled on the ASCII letters; the
  source applies them to text of the traces and to the words and operators of
  expressions.
\<close>

subsection \<open>Character classes\<close>

definition isSpace :: "char \<Rightarrow> bool" where
  \<comment> \<open>\<open>\s\<close>: tab, line feed, vertical tab, form feed, carriage return, space, no-break space\<close>
  "isSpace c = (c \<in> set [CHR 0x09, CHR 0x0A, CHR 0x0B, CHR 0x0C, CHR 0x0D, CHR 0x20, CHR 0xA0])"

definition isDigit :: "char \<Rightarrow> bool" where
  \<comment> \<open>\<open>\d\<close>, \<open>[0-9]\<close>\<close>
  "isDigit c = (c \<in> set ''0123456789'')"

definition isLower :: "char \<Rightarrow> bool" where
  "isLower c = (c \<in> set ''abcdefghijklmnopqrstuvwxyz'')"

definition isUpper :: "char \<Rightarrow> bool" where
  "isUpper c = (c \<in> set ''ABCDEFGHIJKLMNOPQRSTUVWXYZ'')"

definition isWord :: "char \<Rightarrow> bool" where
  \<comment> \<open>\<open>\w\<close>, \<open>[a-zA-Z0-9_]\<close>\<close>
  "isWord c = (isLower c \<or> isUpper c \<or> isDigit c \<or> c = CHR ''_'')"

definition isDot :: "char \<Rightarrow> bool" where
  \<comment> \<open>\<open>.\<close>: any character but a line terminator\<close>
  "isDot c = (c \<noteq> CHR 0x0A \<and> c \<noteq> CHR 0x0D)"

datatype cls = Space | NonSpace | Digit | Word | Dot | NoneOf string | OneOf string

fun inCls :: "cls \<Rightarrow> char \<Rightarrow> bool" where
  "inCls Space c = isSpace c"
| "inCls NonSpace c = (\<not> isSpace c)"
| "inCls Digit c = isDigit c"
| "inCls Word c = isWord c"
| "inCls Dot c = isDot c"
| "inCls (NoneOf cs) c = (c \<notin> set cs)"
| "inCls (OneOf cs) c = (c \<in> set cs)"

subsection \<open>A backtracking matcher for the regular expressions of the source\<close>

text \<open>
  A pattern is a sequence of items. \<open>Many c n\<close> is the greedy \<open>c{n,}\<close> (so \<open>c+\<close>
  is \<open>Many c 1\<close> and \<open>c*\<close> is \<open>Many c 0\<close>), \<open>Few c n\<close> the lazy one, \<open>Opt l\<close>
  the greedy optional literal \<open>l?\<close>, \<open>Alt ls\<close> an alternation of literals tried
  left to right, \<open>GOpen\<close>/\<open>GClose\<close> the parentheses of a capturing group and
  \<open>AtEnd\<close> the anchor \<open>$\<close>. The matcher tries the choices in the order of
  ECMAScript's backtracking semantics and returns the captured groups of the
  first successful alternative.
\<close>

datatype rx = Lit string | Many cls nat | Few cls nat | Opt string | Alt "string list"
  | GOpen | GClose | AtEnd

fun firstSome :: "'a option list \<Rightarrow> 'a option" where
  "firstSome [] = None"
| "firstSome (None # xs) = firstSome xs"
| "firstSome (Some x # xs) = Some x"

definition startsWith :: "string \<Rightarrow> string \<Rightarrow> bool" where
  "startsWith s l = (take (length l) s = l)"

definition run :: "cls \<Rightarrow> string \<Rightarrow> nat" where
  "run c s = length (takeWhile (inCls c) s)"

fun rxMatch :: "rx list \<Rightarrow> string \<Rightarrow> nat \<Rightarrow> nat list \<Rightarrow> string list \<Rightarrow> string list option" where
  "rxMatch [] s i os caps = Some caps"
| "rxMatch (Lit l # r) s i os caps =
     (if startsWith (drop i s) l then rxMatch r s (i + length l) os caps else None)"
| "rxMatch (Many c n # r) s i os caps =
     firstSome (map (\<lambda>k. rxMatch r s (i + k) os caps) (rev [n ..< Suc (run c (drop i s))]))"
| "rxMatch (Few c n # r) s i os caps =
     firstSome (map (\<lambda>k. rxMatch r s (i + k) os caps) [n ..< Suc (run c (drop i s))])"
| "rxMatch (Opt l # r) s i os caps =
     firstSome [if startsWith (drop i s) l then rxMatch r s (i + length l) os caps else None,
                rxMatch r s i os caps]"
| "rxMatch (Alt ls # r) s i os caps =
     firstSome (map (\<lambda>l. if startsWith (drop i s) l then rxMatch r s (i + length l) os caps else None) ls)"
| "rxMatch (GOpen # r) s i os caps = rxMatch r s i (i # os) caps"
| "rxMatch (GClose # r) s i os caps =
     (case os of [] \<Rightarrow> rxMatch r s i os caps
      | b # os' \<Rightarrow> rxMatch r s i os' (caps @ [take (i - b) (drop b s)]))"
| "rxMatch (AtEnd # r) s i os caps = (if i = length s then rxMatch r s i os caps else None)"

definition matchAt :: "rx list \<Rightarrow> string \<Rightarrow> nat \<Rightarrow> string list option" where
  "matchAt p s i = rxMatch p s i [] []"

definition matchStart :: "rx list \<Rightarrow> string \<Rightarrow> string list option" where
  \<comment> \<open>\<open>s.match(/^p/)\<close>: the groups of the match at the start of \<open>s\<close>\<close>
  "matchStart p s = matchAt p s 0"

definition matchAny :: "rx list \<Rightarrow> string \<Rightarrow> string list option" where
  \<comment> \<open>\<open>s.match(/p/)\<close>: the groups of the leftmost match\<close>
  "matchAny p s = firstSome (map (matchAt p s) [0 ..< Suc (length s)])"


definition matchFirst :: "rx list \<Rightarrow> string \<Rightarrow> (nat \<times> string list) option" where
  \<comment> \<open>the leftmost match of the unanchored pattern, with the index where it starts\<close>
  "matchFirst p s =
     firstSome (map (\<lambda>i. map_option (\<lambda>caps. (i, caps)) (matchAt p s i)) [0 ..< Suc (length s)])"

definition test :: "string list option \<Rightarrow> bool" where
  \<comment> \<open>\<open>regex.test(s)\<close>, and the truth value of a match result\<close>
  "test m = (m \<noteq> None)"

fun group :: "string list option \<Rightarrow> nat \<Rightarrow> string" where
  \<comment> \<open>\<open>m[k]\<close> of a successful match, groups counted from 1\<close>
  "group (Some caps) k = (if 0 < k \<and> k \<le> length caps then caps ! (k - 1) else [])"
| "group None k = []"

subsection \<open>String functions\<close>

definition trim :: "string \<Rightarrow> string" where
  "trim s = rev (dropWhile isSpace (rev (dropWhile isSpace s)))"

definition toLowerChar :: "char \<Rightarrow> char" where
  "toLowerChar c = (if isUpper c then char_of (of_char c + (32::nat)) else c)"

definition toUpperChar :: "char \<Rightarrow> char" where
  "toUpperChar c = (if isLower c then char_of (of_char c - (32::nat)) else c)"

definition toLowerCase :: "string \<Rightarrow> string" where
  "toLowerCase s = map toLowerChar s"

definition toUpperCase :: "string \<Rightarrow> string" where
  "toUpperCase s = map toUpperChar s"

subsection \<open>Insertion-ordered maps\<close>

text \<open>
  A JavaScript \<open>Map\<close> with string keys is the list of its entries in insertion
  order. \<open>mapSet\<close> overwrites the value of a key that is present, in place, and
  appends a new key at the end, as \<open>Map.prototype.set\<close> does.
\<close>

type_synonym 'v jsMap = "(string \<times> 'v) list"

definition mapGet :: "'v jsMap \<Rightarrow> string \<Rightarrow> 'v option" where
  "mapGet m k = map_of m k"

definition mapHas :: "'v jsMap \<Rightarrow> string \<Rightarrow> bool" where
  "mapHas m k = (k \<in> set (map fst m))"

fun mapSet :: "'v jsMap \<Rightarrow> string \<Rightarrow> 'v \<Rightarrow> 'v jsMap" where
  "mapSet [] k v = [(k, v)]"
| "mapSet ((k', v') # m) k v = (if k' = k then (k, v) # m else (k', v') # mapSet m k v)"

definition mapKeys :: "'v jsMap \<Rightarrow> string list" where
  "mapKeys m = map fst m"

definition mapValues :: "'v jsMap \<Rightarrow> 'v list" where
  "mapValues m = map snd m"

section \<open>Variable assignment tracker (\<open>parseVariableAssignments\<close>)\<close>

record VariableAssignment =
  variableName :: string
  displayName :: string
  assignmentExpression :: string
  previousValue :: "string option"
  resultValue :: "string option"
  va_lineNumber :: nat
  va_ruleType :: string
  va_ruleName :: string
  va_ruleset :: string

record VariableSummary =
  vs_name :: string
  rawName :: string
  assignments :: "VariableAssignment list"
  finalValue :: "string option"
  assignmentCount :: nat
  firstAssignmentLine :: nat
  lastAssignmentLine :: nat
  hasChanges :: bool

record VariableTrackingSummary =
  variables :: "VariableSummary jsMap"
  totalAssignments :: nat
  uniqueVariables :: nat

text \<open>The regular expressions of the tracker, each next to its source text.\<close>

definition rulesetPattern :: "rx list" where
  \<comment> \<open>\<^verbatim>\<open>/^Ruleset: (\S+) Rule: (\d+) (.+?) \(Ruleset:/\<close>\<close>
  "rulesetPattern =
     [Lit ''Ruleset: '', GOpen, Many NonSpace 1, GClose, Lit '' Rule: '', GOpen, Many Digit 1, GClose,
      Lit '' '', GOpen, Few Dot 1, GClose, Lit '' (Ruleset:'']"

definition ruleTypePattern9 :: "rx list" where
  \<comment> \<open>the nine-name pattern of \<open>parseRuleExecutions\<close> and \<open>parseVariableAssignments\<close>\<close>
  "ruleTypePattern9 =
     [GOpen, Alt [''ConditionRule'', ''VariableRule'', ''LoadRulesetRule'', ''CreateComponentRule'',
                  ''CreateDynamicOptionListRule'', ''CreateDynamicOptionListGroupRule'',
                  ''ScreenDisplayRule'', ''ForEachRule'', ''LoopRule''], GClose]"

definition fieldPattern :: "string \<Rightarrow> rx list" where
  \<comment> \<open>\<^verbatim>\<open>/^\s+NAME\s+:\s+(.+)/\<close>\<close>
  "fieldPattern nm =
     [Many Space 1, Lit nm, Many Space 1, Lit '':'', Many Space 1, GOpen, Many Dot 1, GClose]"

definition variablePattern :: "rx list" where
  "variablePattern = fieldPattern ''Variable''"

definition assignmentPattern :: "rx list" where
  "assignmentPattern = fieldPattern ''Assignment''"

definition previousPattern :: "rx list" where
  "previousPattern = fieldPattern ''Previous''"

definition resultPattern :: "rx list" where
  "resultPattern = fieldPattern ''Result''"

definition sectionDivider :: "rx list" where
  \<comment> \<open>\<^verbatim>\<open>/^-{10,}/\<close>\<close>
  "sectionDivider = [Many (OneOf ''-'') 10]"

definition parseVariableValue :: "string \<Rightarrow> string" where
  "parseVariableValue v =
     (if v = ''null'' \<or> v = ''(unassigned)'' then v
      else case matchStart [Lit [CHR 0x22], GOpen, Many Dot 0, GClose, Lit [CHR 0x22]] v of
        Some caps \<Rightarrow> group (Some caps) 1
      | None \<Rightarrow> v)"

definition resolveVariableName :: "string \<Rightarrow> string jsMap \<Rightarrow> string" where
  "resolveVariableName rawNm variableValues =
     (case matchStart [GOpen, Many Word 1, GClose, Lit ''['', GOpen, Many Word 1, GClose, Lit '']'', AtEnd] rawNm of
        Some caps \<Rightarrow>
          (let baseName = toLowerCase (group (Some caps) 1);
               indexVar = toLowerCase (group (Some caps) 2)
           in case mapGet variableValues indexVar of
                Some indexValue \<Rightarrow>
                  (if indexValue \<noteq> [] then baseName @ ''.'' @ indexValue
                   else baseName @ ''['' @ group (Some caps) 2 @ '']'')
              | None \<Rightarrow> baseName @ ''['' @ group (Some caps) 2 @ '']'')
      | None \<Rightarrow> rawNm)"

definition stripBrackets :: "string \<Rightarrow> string" where
  \<comment> \<open>\<^verbatim>\<open>s.replace(/\[.*\]/, '')\<close>: the leftmost, longest bracketed part is removed\<close>
  "stripBrackets s =
     (case matchFirst [GOpen, Lit ''['', Many Dot 0, Lit '']'', GClose] s of
        Some (i, caps) \<Rightarrow> take i s @ drop (i + length (group (Some caps) 1)) s
      | None \<Rightarrow> s)"

text \<open>
  The look-ahead of a \<open>Variable :\<close> line over the lines \<open>i+1 .. min(i+10, n) - 1\<close>:
  it stops at another variable line, a section divider or a firing line, and at the
  first \<open>Result :\<close> line.
\<close>

fun scanVariable :: "string list \<Rightarrow> string \<Rightarrow> string option \<Rightarrow> string option
    \<Rightarrow> string \<times> string option \<times> string option" where
  "scanVariable [] a p r = (a, p, r)"
| "scanVariable (nextLine # ls) a p r =
     (if test (matchStart variablePattern nextLine) \<or> test (matchStart sectionDivider nextLine)
         \<or> test (matchStart rulesetPattern nextLine) then (a, p, r)
      else
        let a' = (case matchStart assignmentPattern nextLine of
                    Some caps \<Rightarrow> trim (group (Some caps) 1) | None \<Rightarrow> a);
            p' = (case matchStart previousPattern nextLine of
                    Some caps \<Rightarrow> Some (parseVariableValue (trim (group (Some caps) 1))) | None \<Rightarrow> p)
        in case matchStart resultPattern nextLine of
             Some caps \<Rightarrow> (a', p', Some (parseVariableValue (trim (group (Some caps) 1))))
           | None \<Rightarrow> scanVariable ls a' p' r)"

record varState =
  st_assignments :: "VariableAssignment list"
  variableValues :: "string jsMap"
  currentRuleset :: string
  currentRuleName :: string
  currentRuleType :: string

definition trackRule :: "string \<Rightarrow> string list \<Rightarrow> varState \<Rightarrow> varState" where
  \<comment> \<open>the rule context: a firing line sets ruleset and name, the next line may set the type\<close>
  "trackRule line rest st =
     (case matchStart rulesetPattern line of
        None \<Rightarrow> st
      | Some caps \<Rightarrow>
          (let st1 = st\<lparr>currentRuleset := group (Some caps) 1,
                         currentRuleName := trim (group (Some caps) 3)\<rparr>
           in case rest of
                [] \<Rightarrow> st1
              | nxt # _ \<Rightarrow>
                  (case matchStart ruleTypePattern9 nxt of
                     Some t \<Rightarrow> st1\<lparr>currentRuleType := group (Some t) 1\<rparr>
                   | None \<Rightarrow> st1)))"

definition trackVariable :: "nat \<Rightarrow> string \<Rightarrow> string list \<Rightarrow> varState \<Rightarrow> varState" where
  "trackVariable i line rest st =
     (case matchStart variablePattern line of
        None \<Rightarrow> st
      | Some caps \<Rightarrow>
          (let rawVariableName = trim (group (Some caps) 1);
               (assignmentExpr, prev, res) = scanVariable (take 9 rest) [] None None;
               dn = resolveVariableName rawVariableName (variableValues st);
               a = \<lparr>variableName = rawVariableName, displayName = dn,
                    assignmentExpression = assignmentExpr, previousValue = prev,
                    resultValue = res, va_lineNumber = i + 1,
                    va_ruleType = currentRuleType st, va_ruleName = currentRuleName st,
                    va_ruleset = currentRuleset st\<rparr>;
               st1 = st\<lparr>st_assignments := st_assignments st @ [a]\<rparr>
           in case res of
                None \<Rightarrow> st1
              | Some rv \<Rightarrow>
                  (let vals1 = mapSet (variableValues st1) (toLowerCase rawVariableName) rv;
                       simpleName = toLowerCase (stripBrackets rawVariableName);
                       vals2 = (if \<not> mapHas vals1 simpleName then mapSet vals1 simpleName rv else vals1)
                   in st1\<lparr>variableValues := vals2\<rparr>)))"

fun scanAssignments :: "nat \<Rightarrow> string list \<Rightarrow> varState \<Rightarrow> varState" where
  \<comment> \<open>the main loop, at line index \<open>i\<close> with the lines from \<open>i\<close> on\<close>
  "scanAssignments i [] st = st"
| "scanAssignments i (line # rest) st =
     scanAssignments (Suc i) rest (trackVariable i line rest (trackRule line rest st))"

text \<open>Grouping by display name: the second loop of \<open>parseVariableAssignments\<close>.\<close>

definition valueChanged :: "VariableAssignment \<Rightarrow> bool" where
  "valueChanged a =
     (previousValue a \<noteq> None \<and> resultValue a \<noteq> None \<and> previousValue a \<noteq> resultValue a
      \<and> previousValue a \<noteq> Some ''(unassigned)'')"

definition newSummary :: "VariableAssignment \<Rightarrow> VariableSummary" where
  "newSummary a =
     \<lparr>vs_name = displayName a, rawName = variableName a, assignments = [], finalValue = None,
      assignmentCount = 0, firstAssignmentLine = va_lineNumber a,
      lastAssignmentLine = va_lineNumber a, hasChanges = False\<rparr>"

definition addAssignment :: "VariableAssignment \<Rightarrow> VariableSummary \<Rightarrow> VariableSummary" where
  "addAssignment a s =
     s\<lparr>assignments := assignments s @ [a], assignmentCount := assignmentCount s + 1,
       lastAssignmentLine := va_lineNumber a, finalValue := resultValue a,
       hasChanges := (if valueChanged a then True else hasChanges s)\<rparr>"

definition groupStep :: "VariableSummary jsMap \<Rightarrow> VariableAssignment \<Rightarrow> VariableSummary jsMap" where
  "groupStep m a =
     (let key = displayName a;
          m1 = (if \<not> mapHas m key then mapSet m key (newSummary a) else m)
      in case mapGet m1 key of
           Some summary \<Rightarrow> mapSet m1 key (addAssignment a summary)
         | None \<Rightarrow> m1)"

definition groupAssignments :: "VariableAssignment list \<Rightarrow> VariableSummary jsMap" where
  "groupAssignments as = foldl groupStep [] as"

definition initVarState :: varState where
  "initVarState = \<lparr>st_assignments = [], variableValues = [], currentRuleset = [],
     currentRuleName = [], currentRuleType = []\<rparr>"

definition parseVariableAssignments :: "string list \<Rightarrow> VariableTrackingSummary" where
  "parseVariableAssignments lines =
     (let as = st_assignments (scanAssignments 0 lines initVarState);
          variablesMap = groupAssignments as
      in \<lparr>variables = variablesMap, totalAssignments = length as,
          uniqueVariables = length variablesMap\<rparr>)"


subsection \<open>The change flag of a variable summary\<close>

definition summaryOk :: "VariableSummary \<Rightarrow> bool" where
  "summaryOk s = (hasChanges s = (\<exists>a \<in> set (assignments s). valueChanged a))"

lemma set_mapSet: "set (mapSet m k v) \<subseteq> insert (k, v) (set m)"
  by (induction m) (auto split: if_splits)

lemma mapGet_mem: "mapGet m k = Some v \<Longrightarrow> (k, v) \<in> set m"
  by (simp add: mapGet_def map_of_SomeD)

lemma summaryOk_new: "summaryOk (newSummary a)"
  by (simp add: summaryOk_def newSummary_def)

lemma summaryOk_add: "summaryOk s \<Longrightarrow> summaryOk (addAssignment a s)"
  by (auto simp: summaryOk_def addAssignment_def)

lemma groupStep_ok:
  assumes "\<forall>(k, s) \<in> set m. summaryOk s"
  shows "\<forall>(k, s) \<in> set (groupStep m a). summaryOk s"
proof -
  define m1 where
    "m1 = (if \<not> mapHas m (displayName a) then mapSet m (displayName a) (newSummary a) else m)"
  have m1: "\<forall>(k, s) \<in> set m1. summaryOk s"
    using assms set_mapSet[of m "displayName a" "newSummary a"] summaryOk_new[of a]
    by (auto simp: m1_def)
  show ?thesis
  proof (cases "mapGet m1 (displayName a)")
    case None
    then show ?thesis using m1 by (simp add: groupStep_def m1_def[symmetric] Let_def)
  next
    case (Some s)
    then have "summaryOk s" using m1 mapGet_mem by fastforce
    then have "summaryOk (addAssignment a s)" by (rule summaryOk_add)
    then show ?thesis
      using m1 Some set_mapSet[of m1 "displayName a" "addAssignment a s"]
      by (auto simp: groupStep_def m1_def[symmetric] Let_def)
  qed
qed

lemma foldl_groupStep_ok:
  "\<forall>(k, s) \<in> set m. summaryOk s \<Longrightarrow> \<forall>(k, s) \<in> set (foldl groupStep m as). summaryOk s"
proof (induction as arbitrary: m)
  case Nil
  then show ?case by simp
next
  case (Cons a as)
  show ?case using Cons.IH[OF groupStep_ok[OF Cons.prems]] by simp
qed

text \<open>
  Claim C7, as the code has it: for every summary that the variable tracker produces,
  \<open>hasChanges\<close> is true if and only if some assignment of the summary has a previous
  value and a result value that are both present (not \<open>null\<close>), that differ, and whose
  previous value is not the sentinel \<open>(unassigned)\<close>.
\<close>

theorem hasChanges_iff_guarded:
  assumes "(k, s) \<in> set (variables (parseVariableAssignments lines))"
  shows "hasChanges s =
    (\<exists>a \<in> set (assignments s). previousValue a \<noteq> None \<and> resultValue a \<noteq> None
        \<and> previousValue a \<noteq> resultValue a \<and> previousValue a \<noteq> Some ''(unassigned)'')"
proof -
  have "\<forall>(k, s) \<in> set (groupAssignments (st_assignments (scanAssignments 0 lines initVarState))).
          summaryOk s"
    unfolding groupAssignments_def by (rule foldl_groupStep_ok) simp
  with assms have "summaryOk s"
    by (auto simp: parseVariableAssignments_def Let_def)
  then show ?thesis by (simp add: summaryOk_def valueChanged_def)
qed

text \<open>
  The theorem at the trace \<open>Variable : X / Previous : "a" / Result : "b"\<close>: its one
  summary is in the result and has a changing assignment.
\<close>

theorem hasChanges_iff_guarded_witness:
  \<open>(''X'', \<lparr>vs_name = ''X'', rawName = ''X'',
         assignments = [\<lparr>variableName = ''X'', displayName = ''X'', assignmentExpression = [],
            previousValue = Some ''a'', resultValue = Some ''b'', va_lineNumber = 1, va_ruleType = [],
            va_ruleName = [], va_ruleset = []\<rparr>],
         finalValue = Some ''b'', assignmentCount = 1, firstAssignmentLine = 1,
         lastAssignmentLine = 1, hasChanges = True\<rparr>)
      \<in> set (variables (parseVariableAssignments
                [''  Variable : X'', ''  Previous : "a"'', ''  Result : "b"'']))
   \<and> (\<exists>a \<in> set [\<lparr>variableName = ''X'', displayName = ''X'', assignmentExpression = [],
            previousValue = Some ''a'', resultValue = Some ''b'', va_lineNumber = 1, va_ruleType = [],
            va_ruleName = [], va_ruleset = []\<rparr>].
        previousValue a \<noteq> None \<and> resultValue a \<noteq> None
        \<and> previousValue a \<noteq> resultValue a \<and> previousValue a \<noteq> Some ''(unassigned)'')\<close>
proof -
  have mem: \<open>(''X'', \<lparr>vs_name = ''X'', rawName = ''X'',
         assignments = [\<lparr>variableName = ''X'', displayName = ''X'', assignmentExpression = [],
            previousValue = Some ''a'', resultValue = Some ''b'', va_lineNumber = 1, va_ruleType = [],
            va_ruleName = [], va_ruleset = []\<rparr>],
         finalValue = Some ''b'', assignmentCount = 1, firstAssignmentLine = 1,
         lastAssignmentLine = 1, hasChanges = True\<rparr>)
      \<in> set (variables (parseVariableAssignments
                [''  Variable : X'', ''  Previous : "a"'', ''  Result : "b"'']))\<close>
    by code_simp
  from hasChanges_iff_guarded[OF mem]
  have \<open>\<exists>a \<in> set [\<lparr>variableName = ''X'', displayName = ''X'', assignmentExpression = [],
            previousValue = Some ''a'', resultValue = Some ''b'', va_lineNumber = 1, va_ruleType = [],
            va_ruleName = [], va_ruleset = []\<rparr>].
        previousValue a \<noteq> None \<and> resultValue a \<noteq> None
        \<and> previousValue a \<noteq> resultValue a \<and> previousValue a \<noteq> Some ''(unassigned)''\<close>
    by simp
  with mem show ?thesis by blast
qed

text \<open>
  Claim C7 as stated fails where a value is absent. In the trace
  \<open>Variable : X / Result : "x"\<close> there is no \<open>Previous :\<close> line, so the previous value
  is \<open>null\<close>: it differs from the result \<open>x\<close> and is not the sentinel, yet
  \<open>hasChanges\<close> is false.
\<close>

theorem hasChanges_unguarded_counterexample:
  \<open>variables (parseVariableAssignments [''  Variable : X'', ''  Result : "x"'']) =
     [(''X'', \<lparr>vs_name = ''X'', rawName = ''X'',
         assignments = [\<lparr>variableName = ''X'', displayName = ''X'', assignmentExpression = [],
            previousValue = None, resultValue = Some ''x'', va_lineNumber = 1, va_ruleType = [],
            va_ruleName = [], va_ruleset = []\<rparr>],
         finalValue = Some ''x'', assignmentCount = 1, firstAssignmentLine = 1,
         lastAssignmentLine = 1, hasChanges = False\<rparr>)]\<close>
  by code_simp


section \<open>Rule execution aggregator (\<open>parseRuleExecutions\<close>)\<close>

record RuleStats =
  rst_ruleId :: string
  rst_ruleName :: string
  rst_ruleType :: string
  rst_ruleset :: string
  rst_executionCount :: nat

record RulesetSummary =
  rss_name :: string
  rss_namespace :: string
  rss_executionCount :: nat
  rules :: "RuleStats jsMap"

record RuleExecutionSummary =
  totalExecutions :: nat
  uniqueRules :: nat
  rulesets :: "RulesetSummary jsMap"
  topRules :: "RuleStats list"
  ruleTypeBreakdown :: "nat jsMap"

record aggState =
  ag_rulesets :: "RulesetSummary jsMap"
  ag_ruleTypeBreakdown :: "nat jsMap"
  ruleExecutionCounts :: "RuleStats jsMap"
  ag_totalExecutions :: nat

definition nextRuleType :: "rx list \<Rightarrow> string list \<Rightarrow> string" where
  \<comment> \<open>\<open>Unknown\<close> unless there is a next line and it starts with a name of the pattern\<close>
  "nextRuleType pat rest =
     (case rest of
        [] \<Rightarrow> ''Unknown''
      | nxt # _ \<Rightarrow> (case matchStart pat nxt of Some t \<Rightarrow> group (Some t) 1 | None \<Rightarrow> ''Unknown''))"

definition firstSegment :: "string \<Rightarrow> string" where
  \<comment> \<open>\<open>s.split('.')[0]\<close>\<close>
  "firstSegment s = takeWhile (\<lambda>c. c \<noteq> CHR ''.'') s"

definition countRule :: "RuleStats jsMap \<Rightarrow> string \<Rightarrow> RuleStats \<Rightarrow> RuleStats jsMap" where
  \<comment> \<open>the entry of the key is created with count 0 if absent, then incremented\<close>
  "countRule m ruleKey fresh =
     (let m1 = (if \<not> mapHas m ruleKey then mapSet m ruleKey fresh else m)
      in case mapGet m1 ruleKey of
           Some st \<Rightarrow> mapSet m1 ruleKey (st\<lparr>rst_executionCount := rst_executionCount st + 1\<rparr>)
         | None \<Rightarrow> m1)"

definition countRuleset :: "RulesetSummary jsMap \<Rightarrow> string \<Rightarrow> string \<Rightarrow> RuleStats \<Rightarrow> RulesetSummary jsMap" where
  "countRuleset m rulesetName ruleKey fresh =
     (let m1 = (if \<not> mapHas m rulesetName
                then mapSet m rulesetName \<lparr>rss_name = rulesetName, rss_namespace = firstSegment rulesetName,
                                             rss_executionCount = 0, rules = []\<rparr>
                else m)
      in case mapGet m1 rulesetName of
           Some rs \<Rightarrow> mapSet m1 rulesetName
                        (rs\<lparr>rss_executionCount := rss_executionCount rs + 1,
                            rules := countRule (rules rs) ruleKey fresh\<rparr>)
         | None \<Rightarrow> m1)"

definition aggStep :: "string \<Rightarrow> string list \<Rightarrow> aggState \<Rightarrow> aggState" where
  "aggStep line rest st =
     (case matchStart rulesetPattern line of
        None \<Rightarrow> st
      | Some caps \<Rightarrow>
          (let rulesetName = group (Some caps) 1;
               ruleId = group (Some caps) 2;
               ruleName = trim (group (Some caps) 3);
               ruleType = nextRuleType ruleTypePattern9 rest;
               ruleKey = rulesetName @ '':'' @ ruleId;
               fresh = \<lparr>rst_ruleId = ruleId, rst_ruleName = ruleName, rst_ruleType = ruleType,
                        rst_ruleset = rulesetName, rst_executionCount = 0\<rparr>
           in \<lparr>ag_rulesets = countRuleset (ag_rulesets st) rulesetName ruleKey fresh,
               ag_ruleTypeBreakdown =
                 mapSet (ag_ruleTypeBreakdown st) ruleType
                   ((case mapGet (ag_ruleTypeBreakdown st) ruleType of Some n \<Rightarrow> n | None \<Rightarrow> 0) + 1),
               ruleExecutionCounts = countRule (ruleExecutionCounts st) ruleKey fresh,
               ag_totalExecutions = ag_totalExecutions st + 1\<rparr>))"

fun aggLoop :: "string list \<Rightarrow> aggState \<Rightarrow> aggState" where
  "aggLoop [] st = st"
| "aggLoop (line # rest) st = aggLoop rest (aggStep line rest st)"

definition sortByCountDesc :: "RuleStats list \<Rightarrow> RuleStats list" where
  \<comment> \<open>\<open>sort((a, b) => b.executionCount - a.executionCount)\<close>, a stable sort\<close>
  "sortByCountDesc xs = sort_key (\<lambda>r. - int (rst_executionCount r)) xs"

definition parseRuleExecutions :: "string list \<Rightarrow> RuleExecutionSummary" where
  "parseRuleExecutions lines =
     (let st = aggLoop lines \<lparr>ag_rulesets = [], ag_ruleTypeBreakdown = [],
                              ruleExecutionCounts = [], ag_totalExecutions = 0\<rparr>
      in \<lparr>totalExecutions = ag_totalExecutions st,
          uniqueRules = length (ruleExecutionCounts st),
          rulesets = ag_rulesets st,
          topRules = take 20 (sortByCountDesc (mapValues (ruleExecutionCounts st))),
          ruleTypeBreakdown = ag_ruleTypeBreakdown st\<rparr>)"

section \<open>Execution timeline (\<open>parseRuleExecutionTimeline\<close>)\<close>

record RuleExecution =
  executionId :: nat
  ex_ruleId :: string
  ex_ruleName :: string
  ex_ruleType :: string
  ex_ruleset :: string
  ex_lineNumber :: nat
  depth :: nat
  parentExecutionId :: "nat option"
  childExecutionIds :: "nat list"
  startLine :: nat
  endLine :: nat

record Hotspot =
  startExecution :: nat
  endExecution :: nat
  ruleCount :: nat
  hs_ruleset :: string

record RuleExecutionTimeline =
  executions :: "RuleExecution list"
  tl_totalExecutions :: nat
  maxDepth :: nat
  rulesetOrder :: "string list"
  hotspots :: "Hotspot list"

definition ruleTypePattern10 :: "rx list" where
  \<comment> \<open>the ten-name pattern of \<open>parseConditions\<close> and \<open>parseRuleExecutionTimeline\<close>\<close>
  "ruleTypePattern10 =
     [GOpen, Alt [''ConditionRule'', ''VariableRule'', ''LoadRulesetRule'', ''CreateComponentRule'',
                  ''CreateDynamicOptionListRule'', ''CreateDynamicOptionListGroupRule'',
                  ''ScreenDisplayRule'', ''ForEachRule'', ''LoopRule'', ''ClearUserValueRule''], GClose]"

record tlState =
  tl_executions :: "RuleExecution list"
  tl_rulesetOrder :: "string list"
  seenRulesets :: "string list"
  rulesetStack :: "(string \<times> nat) list"
  currentDepth :: nat
  nextExecutionId :: nat

fun findIndex :: "('a \<Rightarrow> bool) \<Rightarrow> 'a list \<Rightarrow> nat option" where
  "findIndex P [] = None"
| "findIndex P (x # xs) = (if P x then Some 0 else map_option Suc (findIndex P xs))"

fun pushChild :: "nat \<Rightarrow> nat \<Rightarrow> RuleExecution list \<Rightarrow> RuleExecution list" where
  \<comment> \<open>\<open>executions.find(e => e.executionId === pid)\<close>, whose child list gets the new id\<close>
  "pushChild pid cid [] = []"
| "pushChild pid cid (e # es) =
     (if executionId e = pid then e\<lparr>childExecutionIds := childExecutionIds e @ [cid]\<rparr> # es
      else e # pushChild pid cid es)"

definition popTo :: "string \<Rightarrow> tlState \<Rightarrow> tlState" where
  \<comment> \<open>the \<open>while\<close> loop over the stack: both of its branches leave it in the first round\<close>
  "popTo rs st =
     (if rulesetStack st \<noteq> [] \<and> fst (last (rulesetStack st)) \<noteq> rs then
        (case findIndex (\<lambda>s. fst s = rs) (rulesetStack st) of
           Some stackIndex \<Rightarrow>
             st\<lparr>rulesetStack := take (stackIndex + 1) (rulesetStack st),
                currentDepth := length (take (stackIndex + 1) (rulesetStack st))\<rparr>
         | None \<Rightarrow> st)
      else st)"

definition tlStep :: "nat \<Rightarrow> string \<Rightarrow> string list \<Rightarrow> tlState \<Rightarrow> tlState" where
  "tlStep i line rest st0 =
     (case matchStart rulesetPattern line of
        None \<Rightarrow> st0
      | Some caps \<Rightarrow>
          (let rs = group (Some caps) 1;
               ruleType = nextRuleType ruleTypePattern10 rest;
               st1 = (if rs \<notin> set (seenRulesets st0)
                      then st0\<lparr>seenRulesets := seenRulesets st0 @ [rs],
                               tl_rulesetOrder := tl_rulesetOrder st0 @ [rs]\<rparr>
                      else st0);
               st2 = popTo rs st1;
               parent = (if rulesetStack st2 \<noteq> [] \<and> fst (last (rulesetStack st2)) \<noteq> rs
                         then Some (snd (last (rulesetStack st2))) else None);
               execution = \<lparr>executionId = nextExecutionId st2, ex_ruleId = group (Some caps) 2,
                            ex_ruleName = trim (group (Some caps) 3), ex_ruleType = ruleType,
                            ex_ruleset = rs, ex_lineNumber = i + 1, depth = currentDepth st2,
                            parentExecutionId = parent, childExecutionIds = [],
                            startLine = i + 1, endLine = i + 1\<rparr>;
               st3 = st2\<lparr>tl_executions := tl_executions st2 @ [execution],
                         nextExecutionId := nextExecutionId st2 + 1\<rparr>;
               st4 = (if ruleType = ''LoadRulesetRule''
                      then st3\<lparr>rulesetStack := rulesetStack st3 @ [(rs, executionId execution)],
                               currentDepth := currentDepth st3 + 1\<rparr>
                      else st3)
           in case parent of
                Some pid \<Rightarrow> st4\<lparr>tl_executions := pushChild pid (executionId execution) (tl_executions st4)\<rparr>
              | None \<Rightarrow> st4))"

fun tlLoop :: "nat \<Rightarrow> string list \<Rightarrow> tlState \<Rightarrow> tlState" where
  "tlLoop i [] st = st"
| "tlLoop i (line # rest) st = tlLoop (Suc i) rest (tlStep i line rest st)"

fun setDurations :: "RuleExecution list \<Rightarrow> RuleExecution list" where
  \<comment> \<open>every execution but the last ends on the line before the next one starts\<close>
  "setDurations (e # e' # es) =
     e\<lparr>startLine := ex_lineNumber e, endLine := ex_lineNumber e' - 1\<rparr> # setDurations (e' # es)"
| "setDurations es = es"

fun findHotspots :: "nat \<Rightarrow> RuleExecution list \<Rightarrow> (string \<times> nat \<times> nat) option \<Rightarrow> Hotspot list
    \<Rightarrow> Hotspot list" where
  \<comment> \<open>\<open>cur\<close> is the run being tracked: its ruleset, its first index and its length\<close>
  "findHotspots i [] cur hs =
     (case cur of
        Some (rs, start, cnt) \<Rightarrow>
          (if cnt \<ge> 10
           then hs @ [\<lparr>startExecution = start, endExecution = i - 1, ruleCount = cnt, hs_ruleset = rs\<rparr>]
           else hs)
      | None \<Rightarrow> hs)"
| "findHotspots i (e # es) cur hs =
     (case cur of
        Some (rs, start, cnt) \<Rightarrow>
          (if rs = ex_ruleset e then findHotspots (Suc i) es (Some (rs, start, cnt + 1)) hs
           else findHotspots (Suc i) es (Some (ex_ruleset e, i, 1))
                  (if cnt \<ge> 10
                   then hs @ [\<lparr>startExecution = start, endExecution = i - 1, ruleCount = cnt,
                               hs_ruleset = rs\<rparr>]
                   else hs))
      | None \<Rightarrow> findHotspots (Suc i) es (Some (ex_ruleset e, i, 1)) hs)"

definition parseRuleExecutionTimeline :: "string list \<Rightarrow> RuleExecutionTimeline" where
  "parseRuleExecutionTimeline lines =
     (let st = tlLoop 0 lines \<lparr>tl_executions = [], tl_rulesetOrder = [], seenRulesets = [],
                               rulesetStack = [], currentDepth = 0, nextExecutionId = 0\<rparr>;
          execs = setDurations (tl_executions st)
      in \<lparr>executions = execs,
          tl_totalExecutions = length execs,
          maxDepth = foldl (\<lambda>mx e. max mx (depth e)) 0 execs,
          rulesetOrder = tl_rulesetOrder st,
          hotspots = findHotspots 0 execs None []\<rparr>)"

section \<open>The entry point \<open>parseTrace\<close>\<close>

fun splitLines :: "string \<Rightarrow> string list" where
  \<comment> \<open>\<^verbatim>\<open>traceContent.split(/\r?\n/)\<close>\<close>
  "splitLines [] = [[]]"
| "splitLines (c # cs) =
     (if c = CHR 0x0A then [] # splitLines cs
      else if c = CHR 0x0D \<and> cs \<noteq> [] \<and> hd cs = CHR 0x0A then [] # splitLines (tl cs)
      else (case splitLines cs of l # ls \<Rightarrow> (c # l) # ls | [] \<Rightarrow> [[c]]))"

text \<open>
  \<open>parseTrace\<close> splits the text into lines and stores the result of each pass over
  the lines in a field of the \<open>ParsedTrace\<close> it returns. These are the fields
  \<open>rulesSummary\<close>, \<open>variableTracking\<close> and \<open>timeline\<close> of that result.
\<close>

definition parseTrace_rulesSummary :: "string \<Rightarrow> RuleExecutionSummary" where
  "parseTrace_rulesSummary traceContent = parseRuleExecutions (splitLines traceContent)"

definition parseTrace_variableTracking :: "string \<Rightarrow> VariableTrackingSummary" where
  "parseTrace_variableTracking traceContent = parseVariableAssignments (splitLines traceContent)"

definition parseTrace_timeline :: "string \<Rightarrow> RuleExecutionTimeline" where
  "parseTrace_timeline traceContent = parseRuleExecutionTimeline (splitLines traceContent)"


subsection \<open>The firing counts of the aggregator and of the timeline\<close>

definition firings :: "string list \<Rightarrow> nat" where
  "firings lines = length (filter (\<lambda>l. test (matchStart rulesetPattern l)) lines)"

definition sumCount :: "RulesetSummary jsMap \<Rightarrow> nat" where
  "sumCount m = sum_list (map (\<lambda>(k, r). rss_executionCount r) m)"

lemma mapGet_mapSet_same: "mapGet (mapSet m k v) k = Some v"
  by (induction m) (auto simp: mapGet_def)

lemma mapHas_mapGet: "mapHas m k \<Longrightarrow> \<exists>v. mapGet m k = Some v"
  by (induction m) (auto simp: mapGet_def mapHas_def)

lemma mapGet_None_iff: "mapGet m k = None \<longleftrightarrow> \<not> mapHas m k"
  by (simp add: mapGet_def mapHas_def map_of_eq_None_iff)

lemma sumCount_mapSet_absent:
  "\<not> mapHas m k \<Longrightarrow> sumCount (mapSet m k v) = sumCount m + rss_executionCount v"
  by (induction m) (auto simp: sumCount_def mapHas_def)

lemma sumCount_mapSet_present:
  "mapGet m k = Some v \<Longrightarrow> sumCount (mapSet m k v') + rss_executionCount v = sumCount m + rss_executionCount v'"
  by (induction m) (auto simp: sumCount_def mapGet_def)

lemma sumCount_bump:
  assumes "mapGet m n = Some v"
  shows "sumCount (mapSet m n (v\<lparr>rss_executionCount := rss_executionCount v + 1, rules := r\<rparr>)) = sumCount m + 1"
  using sumCount_mapSet_present[OF assms, of "v\<lparr>rss_executionCount := rss_executionCount v + 1, rules := r\<rparr>"]
  by simp

lemma sumCount_countRuleset: "sumCount (countRuleset m n k f) = sumCount m + 1"
proof (cases "mapHas m n")
  case True
  then obtain v where v: "mapGet m n = Some v" using mapHas_mapGet by blast
  show ?thesis
    using True v sumCount_bump[OF v] by (simp add: countRuleset_def Let_def)
next
  case False
  define v0 where "v0 = \<lparr>rss_name = n, rss_namespace = firstSegment n, rss_executionCount = 0, rules = []\<rparr>"
  have g: "mapGet (mapSet m n v0) n = Some v0" by (rule mapGet_mapSet_same)
  have "sumCount (mapSet m n v0) = sumCount m"
    using sumCount_mapSet_absent[OF False, of v0] by (simp add: v0_def)
  then show ?thesis
    using False g sumCount_bump[OF g] by (simp add: countRuleset_def Let_def v0_def[symmetric])
qed

lemma aggStep_total:
  "ag_totalExecutions (aggStep l rest st) =
     ag_totalExecutions st + (if test (matchStart rulesetPattern l) then 1 else 0)"
  by (simp add: aggStep_def test_def Let_def split: option.splits)

lemma aggStep_sum:
  "sumCount (ag_rulesets (aggStep l rest st)) =
     sumCount (ag_rulesets st) + (if test (matchStart rulesetPattern l) then 1 else 0)"
  by (simp add: aggStep_def test_def Let_def sumCount_countRuleset split: option.splits)

lemma aggLoop_total:
  "ag_totalExecutions (aggLoop lines st) = ag_totalExecutions st + firings lines"
  by (induction lines arbitrary: st) (simp_all add: firings_def aggStep_total)

lemma aggLoop_sum:
  "sumCount (ag_rulesets (aggLoop lines st)) = sumCount (ag_rulesets st) + firings lines"
  by (induction lines arbitrary: st) (simp_all add: firings_def aggStep_sum)

lemma length_pushChild: "length (pushChild p c es) = length es"
  by (induction es) auto

lemma popTo_executions: "tl_executions (popTo rs st) = tl_executions st"
  by (simp add: popTo_def split: option.splits)

lemma tlStep_length:
  "length (tl_executions (tlStep i l rest st)) =
     length (tl_executions st) + (if test (matchStart rulesetPattern l) then 1 else 0)"
  by (simp add: tlStep_def test_def Let_def length_pushChild popTo_executions split: option.splits)

lemma tlLoop_length:
  "length (tl_executions (tlLoop i lines st)) = length (tl_executions st) + firings lines"
  by (induction lines arbitrary: st i) (simp_all add: firings_def tlStep_length)

lemma length_setDurations: "length (setDurations es) = length es"
  by (induction es rule: setDurations.induct) auto

text \<open>
  Claim C9: for every input text, the \<open>totalExecutions\<close> of the rule summary equals
  the \<open>totalExecutions\<close> of the timeline, which is the length of its execution list,
  and equals the sum of \<open>executionCount\<close> over the rulesets of the summary; each is the
  number of lines that match the firing pattern.
\<close>

theorem executions_counts_agree:
  "totalExecutions (parseTrace_rulesSummary traceContent) =
     tl_totalExecutions (parseTrace_timeline traceContent)
   \<and> tl_totalExecutions (parseTrace_timeline traceContent) =
       length (executions (parseTrace_timeline traceContent))
   \<and> totalExecutions (parseTrace_rulesSummary traceContent) =
       sum_list (map (\<lambda>(k, r). rss_executionCount r) (rulesets (parseTrace_rulesSummary traceContent)))
   \<and> totalExecutions (parseTrace_rulesSummary traceContent) = firings (splitLines traceContent)"
  using aggLoop_sum[of "splitLines traceContent"]
  by (simp add: parseTrace_rulesSummary_def parseTrace_timeline_def parseRuleExecutions_def
      parseRuleExecutionTimeline_def Let_def aggLoop_total tlLoop_length length_setDurations sumCount_def)

text \<open>
  Claim C8 at the trace of one firing line followed by the line \<open>ClearUserValueRule\<close>:
  the aggregator, whose pattern has nine names and not this one, records the type
  \<open>Unknown\<close> for the rule and in the type breakdown, while the timeline, whose pattern
  has all ten names, records \<open>ClearUserValueRule\<close> for the same firing.
\<close>

theorem aggregator_drops_ClearUserValueRule:
  "ruleTypeBreakdown (parseTrace_rulesSummary
      (''Ruleset: NS.Main Rule: 7 Clear value (Ruleset: NS.Main)'' @ [CHR 0x0A] @ ''ClearUserValueRule''))
     = [(''Unknown'', 1)]
   \<and> map rst_ruleType (topRules (parseTrace_rulesSummary
      (''Ruleset: NS.Main Rule: 7 Clear value (Ruleset: NS.Main)'' @ [CHR 0x0A] @ ''ClearUserValueRule'')))
     = [''Unknown'']
   \<and> map ex_ruleType (executions (parseTrace_timeline
      (''Ruleset: NS.Main Rule: 7 Clear value (Ruleset: NS.Main)'' @ [CHR 0x0A] @ ''ClearUserValueRule'')))
     = [''ClearUserValueRule'']"
  by code_simp


section \<open>Metadata extraction of \<open>parseTrace\<close>\<close>

record ConfigurationMetadata =
  md_instance :: string
  application :: string
  configurationId :: string
  partNumber :: string
  partNamespace :: string
  configurationMode :: string
  headerID :: string

definition instancePattern :: "rx list" where
  \<comment> \<open>\<^verbatim>\<open>/<InputParameters Instance="([^"]+)" Application="([^"]+)">/\<close>\<close>
  "instancePattern =
     [Lit (''<InputParameters Instance='' @ [CHR 0x22]), GOpen, Many (NoneOf [CHR 0x22]) 1, GClose,
      Lit ([CHR 0x22] @ '' Application='' @ [CHR 0x22]), GOpen, Many (NoneOf [CHR 0x22]) 1, GClose,
      Lit ([CHR 0x22] @ ''>'')]"

definition configIdPattern :: "rx list" where
  \<comment> \<open>\<^verbatim>\<open>/<ConfigurationID>(\d+)<\/ConfigurationID>/\<close>\<close>
  "configIdPattern = [Lit ''<ConfigurationID>'', GOpen, Many Digit 1, GClose, Lit ''</ConfigurationID>'']"

definition tagPattern :: "string \<Rightarrow> rx list" where
  \<comment> \<open>\<^verbatim>\<open>/<TAG>([^<]+)<\/TAG>/\<close>\<close>
  "tagPattern tag =
     [Lit (''<'' @ tag @ ''>''), GOpen, Many (NoneOf ''<'') 1, GClose, Lit (''</'' @ tag @ ''>'')]"

definition partNumberPattern :: "rx list" where
  "partNumberPattern = tagPattern ''PartNumber''"

definition partNamespacePattern :: "rx list" where
  "partNamespacePattern = tagPattern ''PartNamespace''"

definition configModePattern :: "rx list" where
  "configModePattern = tagPattern ''ConfigurationMode''"

definition headerIdPattern :: "rx list" where
  "headerIdPattern = tagPattern ''HeaderID''"

definition metaStep :: "ConfigurationMetadata \<Rightarrow> string \<Rightarrow> ConfigurationMetadata" where
  \<comment> \<open>the metadata part of one round of the second pass, in the order of the source\<close>
  "metaStep md0 line =
     (let md1 = (case matchAny instancePattern line of
                   Some caps \<Rightarrow> md0\<lparr>md_instance := group (Some caps) 1, application := group (Some caps) 2\<rparr>
                 | None \<Rightarrow> md0);
          md2 = (case matchAny configIdPattern line of
                   Some caps \<Rightarrow> md1\<lparr>configurationId := group (Some caps) 1\<rparr>
                 | None \<Rightarrow> md1);
          md3 = (case matchAny partNumberPattern line of
                   Some caps \<Rightarrow> (if partNumber md2 = [] then md2\<lparr>partNumber := group (Some caps) 1\<rparr> else md2)
                 | None \<Rightarrow> md2);
          md4 = (case matchAny partNamespacePattern line of
                   Some caps \<Rightarrow> md3\<lparr>partNamespace := group (Some caps) 1\<rparr>
                 | None \<Rightarrow> md3);
          md5 = (case matchAny configModePattern line of
                   Some caps \<Rightarrow> md4\<lparr>configurationMode := group (Some caps) 1\<rparr>
                 | None \<Rightarrow> md4)
      in case matchAny headerIdPattern line of
           Some caps \<Rightarrow> md5\<lparr>headerID := group (Some caps) 1\<rparr>
         | None \<Rightarrow> md5)"

definition initMetadata :: ConfigurationMetadata where
  "initMetadata = \<lparr>md_instance = [], application = [], configurationId = [], partNumber = [],
     partNamespace = [], configurationMode = [], headerID = []\<rparr>"

definition parseTrace_metadata :: "string \<Rightarrow> ConfigurationMetadata" where
  \<comment> \<open>the field \<open>metadata\<close> of the result of \<open>parseTrace\<close>\<close>
  "parseTrace_metadata traceContent = foldl metaStep initMetadata (splitLines traceContent)"

definition lastMatch :: "rx list \<Rightarrow> string list \<Rightarrow> string list option" where
  \<comment> \<open>the match of the pattern on the last line that it matches\<close>
  "lastMatch p ls =
     (case rev (filter (\<lambda>l. test (matchAny p l)) ls) of [] \<Rightarrow> None | l # _ \<Rightarrow> matchAny p l)"

definition firstNonEmptyMatch :: "rx list \<Rightarrow> string list \<Rightarrow> string list option" where
  \<comment> \<open>the match of the pattern on the first line where its group is not empty\<close>
  "firstNonEmptyMatch p ls =
     (case filter (\<lambda>l. group (matchAny p l) 1 \<noteq> []) ls of [] \<Rightarrow> None | l # _ \<Rightarrow> matchAny p l)"


subsection \<open>Which matching line determines a field\<close>

lemma lastWins:
  "foldl (\<lambda>v l. case f l of Some caps \<Rightarrow> g caps | None \<Rightarrow> v) v0 ls =
     (case rev (filter (\<lambda>l. f l \<noteq> None) ls) of [] \<Rightarrow> v0 | l # _ \<Rightarrow> (case f l of Some caps \<Rightarrow> g caps | None \<Rightarrow> v0))"
proof (induction ls rule: rev_induct)
  case Nil
  then show ?case by simp
next
  case (snoc x xs)
  then show ?case by (cases "f x") auto
qed

lemma firstWins:
  "foldl (\<lambda>v l. case f l of Some caps \<Rightarrow> (if v = [] then group (Some caps) k else v) | None \<Rightarrow> v) v0 ls =
     (if v0 \<noteq> [] then v0
      else case filter (\<lambda>l. group (f l) k \<noteq> []) ls of [] \<Rightarrow> [] | l # _ \<Rightarrow> group (f l) k)"
proof (induction ls arbitrary: v0)
  case Nil
  then show ?case by simp
next
  case (Cons x xs)
  show ?case
  proof (cases "f x")
    case None
    then show ?thesis using Cons.IH[of v0] by simp
  next
    case (Some caps)
    then show ?thesis
      using Cons.IH[of "if v0 = [] then group (Some caps) k else v0"] by simp
  qed
qed

lemma proj_foldl:
  assumes "\<And>md l. sel (metaStep md l) = h (sel md) l"
  shows "sel (foldl metaStep md ls) = foldl h (sel md) ls"
  by (induction ls arbitrary: md) (simp_all add: assms)

lemma metaStep_instance:
  "md_instance (metaStep md l) = (case matchAny instancePattern l of Some caps \<Rightarrow> group (Some caps) 1 | None \<Rightarrow> md_instance md)"
  by (simp add: metaStep_def Let_def split: option.splits)

lemma metaStep_application:
  "application (metaStep md l) = (case matchAny instancePattern l of Some caps \<Rightarrow> group (Some caps) 2 | None \<Rightarrow> application md)"
  by (simp add: metaStep_def Let_def split: option.splits)

lemma metaStep_configurationId:
  "configurationId (metaStep md l) = (case matchAny configIdPattern l of Some caps \<Rightarrow> group (Some caps) 1 | None \<Rightarrow> configurationId md)"
  by (simp add: metaStep_def Let_def split: option.splits)

lemma metaStep_partNumber:
  "partNumber (metaStep md l) = (case matchAny partNumberPattern l of
       Some caps \<Rightarrow> (if partNumber md = [] then group (Some caps) 1 else partNumber md) | None \<Rightarrow> partNumber md)"
  by (simp add: metaStep_def Let_def split: option.splits)

lemma metaStep_partNamespace:
  "partNamespace (metaStep md l) = (case matchAny partNamespacePattern l of Some caps \<Rightarrow> group (Some caps) 1 | None \<Rightarrow> partNamespace md)"
  by (simp add: metaStep_def Let_def split: option.splits)

lemma metaStep_configurationMode:
  "configurationMode (metaStep md l) = (case matchAny configModePattern l of Some caps \<Rightarrow> group (Some caps) 1 | None \<Rightarrow> configurationMode md)"
  by (simp add: metaStep_def Let_def split: option.splits)

lemma metaStep_headerID:
  "headerID (metaStep md l) = (case matchAny headerIdPattern l of Some caps \<Rightarrow> group (Some caps) 1 | None \<Rightarrow> headerID md)"
  by (simp add: metaStep_def Let_def split: option.splits)

lemma lastMatch_fold:
  assumes "\<And>md l. sel (metaStep md l) = (case matchAny p l of Some caps \<Rightarrow> group (Some caps) k | None \<Rightarrow> sel md)"
    and "sel initMetadata = []"
  shows "sel (foldl metaStep initMetadata ls) = group (lastMatch p ls) k"
proof -
  have "sel (foldl metaStep initMetadata ls) =
      foldl (\<lambda>v l. case matchAny p l of Some caps \<Rightarrow> group (Some caps) k | None \<Rightarrow> v) (sel initMetadata) ls"
    by (rule proj_foldl) (rule assms(1))
  also have "\<dots> = group (lastMatch p ls) k"
    unfolding lastWins lastMatch_def test_def assms(2)
    by (auto split: list.splits option.splits)
  finally show ?thesis .
qed

text \<open>
  Claim C3, as the code has it: in the metadata extraction of \<open>parseTrace\<close> the
  instance, the application, the configuration id, the part namespace, the
  configuration mode and the header id are taken from the last line that matches the
  field's pattern, and the part number from the first line with a non-empty match; a
  field that no line matches stays empty.
\<close>

theorem metadata_last_match_wins:
  "md_instance (parseTrace_metadata t) = group (lastMatch instancePattern (splitLines t)) 1
   \<and> application (parseTrace_metadata t) = group (lastMatch instancePattern (splitLines t)) 2
   \<and> configurationId (parseTrace_metadata t) = group (lastMatch configIdPattern (splitLines t)) 1
   \<and> partNamespace (parseTrace_metadata t) = group (lastMatch partNamespacePattern (splitLines t)) 1
   \<and> configurationMode (parseTrace_metadata t) = group (lastMatch configModePattern (splitLines t)) 1
   \<and> headerID (parseTrace_metadata t) = group (lastMatch headerIdPattern (splitLines t)) 1
   \<and> partNumber (parseTrace_metadata t) = group (firstNonEmptyMatch partNumberPattern (splitLines t)) 1"
proof -
  have pn: "partNumber (foldl metaStep initMetadata ls) = group (firstNonEmptyMatch partNumberPattern ls) 1" for ls
  proof -
    have "partNumber (foldl metaStep initMetadata ls) =
        foldl (\<lambda>v l. case matchAny partNumberPattern l of
                 Some caps \<Rightarrow> (if v = [] then group (Some caps) 1 else v) | None \<Rightarrow> v) (partNumber initMetadata) ls"
      by (rule proj_foldl) (rule metaStep_partNumber)
    also have "\<dots> = group (firstNonEmptyMatch partNumberPattern ls) 1"
      unfolding firstWins firstNonEmptyMatch_def
      by (simp add: initMetadata_def split: list.splits)
    finally show ?thesis .
  qed
  show ?thesis
    unfolding parseTrace_metadata_def
    by (intro conjI lastMatch_fold metaStep_instance metaStep_application metaStep_configurationId
          metaStep_partNamespace metaStep_configurationMode metaStep_headerID pn)
       (simp_all add: initMetadata_def)
qed


text \<open>
  Claim C3 as stated fails for the configuration id, the part namespace and the header
  id: with two matching lines the stored value is that of the second line, not of the
  first.
\<close>

theorem metadata_first_match_counterexample:
  "parseTrace_metadata
     (''<ConfigurationID>1</ConfigurationID>'' @ [CHR 0x0A] @
      ''<ConfigurationID>2</ConfigurationID>'' @ [CHR 0x0A] @
      ''<PartNamespace>A</PartNamespace>'' @ [CHR 0x0A] @
      ''<PartNamespace>B</PartNamespace>'' @ [CHR 0x0A] @
      ''<HeaderID>h1</HeaderID>'' @ [CHR 0x0A] @
      ''<HeaderID>h2</HeaderID>'')
   = \<lparr>md_instance = [], application = [], configurationId = ''2'', partNumber = [],
       partNamespace = ''B'', configurationMode = [], headerID = ''h2''\<rparr>"
  by code_simp


section \<open>The parsed trace\<close>

record FeatureData =
  fd_name :: string
  caption :: string
  fd_selectedValue :: "string option"
  options :: "string list"
  optionListId :: "string option"
  optionListGroup :: "string option"
  fd_lineNumber :: nat

text \<open>
  A property of an integration row is a string, a number or \<open>null\<close>. A number is
  kept as its decimal rendering, the string that \<open>String(n)\<close> returns.
\<close>

datatype propValue = PStr string | PNum string | PNull

record IntegrationOutputRow =
  row_id :: string
  properties :: "propValue jsMap"
  row_lineNumber :: nat

record IntegrationTemplate =
  tpl_name :: string
  columns :: "string list"
  rows :: "IntegrationOutputRow list"

record IntegrationOutputSummary =
  templates :: "IntegrationTemplate jsMap"
  totalRows :: nat

record ConditionEvaluation =
  ce_ruleId :: string
  ce_ruleName :: string
  ce_ruleType :: string
  ce_ruleset :: string
  expression :: string
  ce_trace :: string
  ce_result :: bool
  ce_lineNumber :: nat

record ConditionSummary =
  totalConditions :: nat
  firedCount :: nat
  skippedCount :: nat
  conditions :: "ConditionEvaluation list"

datatype Severity = Error | Warning | Info

datatype IssueCategory = Performance | Logic | Data | Configuration

record IssueContext =
  ctx_ruleName :: "string option"
  ctx_ruleset :: "string option"
  ctx_variableName :: "string option"
  ctx_expression :: "string option"
  ctx_count :: "nat option"

record DetectedIssue =
  di_id :: string
  di_severity :: Severity
  category :: IssueCategory
  title :: string
  description :: string
  di_lineNumber :: nat
  di_context :: IssueContext

record IssuesSummary =
  is_issues :: "DetectedIssue list"
  errorCount :: nat
  warningCount :: nat
  infoCount :: nat

record ParsedTrace =
  metadata :: ConfigurationMetadata
  features :: "FeatureData jsMap"
  rulesSummary :: RuleExecutionSummary
  integrationOutputs :: IntegrationOutputSummary
  variableTracking :: VariableTrackingSummary
  conditionTracking :: ConditionSummary
  issues :: IssuesSummary
  timeline :: RuleExecutionTimeline
  rulesExecuted :: nat
  rollbackPoints :: nat
  parseErrors :: "string list"

section \<open>Baseline fingerprint matcher (\<open>baseline-storage.ts\<close>)\<close>

record SelectionEntry =
  featureName :: string
  selectedValue :: "string option"
  optionCount :: nat

record BaselineTrace =
  bl_id :: string
  bl_name :: string
  filename :: string
  trace :: ParsedTrace
  selectionPath :: "SelectionEntry list"
  createdAt :: nat

record BaselineMatchResult =
  baseline :: BaselineTrace
  matchScore :: int
  matchingSelections :: nat
  totalSelections :: nat
  firstDivergenceIndex :: int

definition extractSelectionPath :: "ParsedTrace \<Rightarrow> SelectionEntry list" where
  \<comment> \<open>the features in the order of their lines (a stable sort), those with a selected value\<close>
  "extractSelectionPath t =
     map (\<lambda>f. \<lparr>featureName = fd_name f, selectedValue = fd_selectedValue f,
                optionCount = length (options f)\<rparr>)
       (filter (\<lambda>f. fd_selectedValue f \<noteq> None)
          (sort_key fd_lineNumber (mapValues (features t))))"

subsection \<open>Double-precision arithmetic\<close>

text \<open>
  JavaScript numbers are IEEE 754 doubles. A double is modelled by the rational it
  denotes, and an arithmetic operation by the exact operation followed by rounding to
  the nearest double, ties to the even significand. The rounding is defined for the
  normal range, which holds every value of the score computation: counts below
  \<open>2^53\<close>, their quotients and a percentage of at most 100.
\<close>

definition pow2 :: "int \<Rightarrow> rat" where
  "pow2 e = (if 0 \<le> e then 2 ^ nat e else 1 / 2 ^ nat (- e))"

fun exponentSearch :: "nat \<Rightarrow> rat \<Rightarrow> int \<Rightarrow> int" where
  \<comment> \<open>halves or doubles \<open>x\<close> until it is in \<open>[1, 2)\<close>, counting the steps in \<open>e\<close>\<close>
  "exponentSearch 0 x e = e"
| "exponentSearch (Suc k) x e =
     (if x < 1 then exponentSearch k (x * 2) (e - 1)
      else if 2 \<le> x then exponentSearch k (x / 2) (e + 1)
      else e)"

definition exponentOf :: "rat \<Rightarrow> int" where
  \<comment> \<open>for \<open>x > 0\<close> in the normal range, the \<open>e\<close> with \<open>2^e \<le> x < 2^(e+1)\<close>\<close>
  "exponentOf x = exponentSearch 1100 x 0"

definition roundEven :: "rat \<Rightarrow> int" where
  "roundEven q =
     (let f = \<lfloor>q\<rfloor>; d = q - of_int f
      in if d < 1 / 2 then f else if 1 / 2 < d then f + 1 else if even f then f else f + 1)"

definition fl :: "rat \<Rightarrow> rat" where
  \<comment> \<open>the double nearest to \<open>x\<close>: 53 significant bits\<close>
  "fl x =
     (if x = 0 then 0
      else let u = pow2 (exponentOf \<bar>x\<bar> - 52)
           in sgn x * of_int (roundEven (\<bar>x\<bar> / u)) * u)"

definition jsDiv :: "rat \<Rightarrow> rat \<Rightarrow> rat" where
  "jsDiv a b = fl (a / b)"

definition jsMul :: "rat \<Rightarrow> rat \<Rightarrow> rat" where
  "jsMul a b = fl (a * b)"

definition mathRound :: "rat \<Rightarrow> int" where
  \<comment> \<open>\<open>Math.round\<close>: the nearest integer, a tie going up\<close>
  "mathRound x = \<lfloor>x + 1 / 2\<rfloor>"

subsection \<open>\<open>calculateMatchScore\<close> and \<open>findBestMatch\<close>\<close>

fun dedup :: "'a list \<Rightarrow> 'a list" where
  \<comment> \<open>the elements of \<open>new Set(xs)\<close> in insertion order: the first occurrence is kept\<close>
  "dedup [] = []"
| "dedup (x # xs) = x # dedup (filter (\<lambda>y. y \<noteq> x) xs)"

fun matchLoop :: "SelectionEntry jsMap \<Rightarrow> nat \<Rightarrow> SelectionEntry list \<Rightarrow> nat \<times> int \<Rightarrow> nat \<times> int" where
  \<comment> \<open>the loop over the baseline's path from index \<open>i\<close>, on \<open>(matchingCount, firstDivergenceIndex)\<close>\<close>
  "matchLoop testMap i [] acc = acc"
| "matchLoop testMap i (baselineSel # rest) (matchingCount, firstDiv) =
     matchLoop testMap (Suc i) rest
       (case mapGet testMap (featureName baselineSel) of
          Some testSel \<Rightarrow>
            (if selectedValue testSel = selectedValue baselineSel then (matchingCount + 1, firstDiv)
             else if firstDiv = - 1 then (matchingCount, int i) else (matchingCount, firstDiv))
        | None \<Rightarrow> (if firstDiv = - 1 then (matchingCount, int i) else (matchingCount, firstDiv)))"

definition calculateMatchScore :: "BaselineTrace \<Rightarrow> SelectionEntry list \<Rightarrow> BaselineMatchResult" where
  "calculateMatchScore b testSelections =
     (let baselineSelections = selectionPath b;
          testMap = foldl (\<lambda>m sel. mapSet m (featureName sel) sel) [] testSelections;
          (matchingCount, firstDiv) = matchLoop testMap 0 baselineSelections (0, - 1);
          allFeatures = dedup (map featureName baselineSelections @ map featureName testSelections);
          score = (if length allFeatures > 0
                   then mathRound (jsMul (jsDiv (of_nat matchingCount) (of_nat (length allFeatures))) 100)
                   else 0)
      in \<lparr>baseline = b, matchScore = score, matchingSelections = matchingCount,
          totalSelections = length allFeatures, firstDivergenceIndex = firstDiv\<rparr>)"



definition rankBaselines :: "BaselineTrace list \<Rightarrow> ParsedTrace \<Rightarrow> BaselineMatchResult list" where
  "rankBaselines baselines testTrace =
     sort_key (\<lambda>r. - matchScore r)
       (map (\<lambda>b. calculateMatchScore b (extractSelectionPath testTrace)) baselines)"


text \<open>Example data: traces of \<open>n\<close> features named \<open>c00\<close>, \<open>c01\<close>, ..., of which the first
  \<open>k\<close> select \<open>a\<close> and the others \<open>b\<close>, and a baseline built from a trace as
  \<open>addBaseline\<close> builds it.\<close>

definition emptyTrace :: ParsedTrace where
  "emptyTrace =
     \<lparr>metadata = initMetadata, features = [],
      rulesSummary = \<lparr>totalExecutions = 0, uniqueRules = 0, rulesets = [], topRules = [],
                       ruleTypeBreakdown = []\<rparr>,
      integrationOutputs = \<lparr>templates = [], totalRows = 0\<rparr>,
      variableTracking = \<lparr>variables = [], totalAssignments = 0, uniqueVariables = 0\<rparr>,
      conditionTracking = \<lparr>totalConditions = 0, firedCount = 0, skippedCount = 0, conditions = []\<rparr>,
      issues = \<lparr>is_issues = [], errorCount = 0, warningCount = 0, infoCount = 0\<rparr>,
      timeline = \<lparr>executions = [], tl_totalExecutions = 0, maxDepth = 0, rulesetOrder = [],
                   hotspots = []\<rparr>,
      rulesExecuted = 0, rollbackPoints = 0, parseErrors = []\<rparr>"











subsection \<open>The match score\<close>
















lemma distinct_map_insort:
  "distinct (map g (insort_key f x xs)) = (g x \<notin> g ` set xs \<and> distinct (map g xs))"
  by (induction xs) (auto simp: set_insort_key)

lemma distinct_map_sort: "distinct (map g (sort_key f xs)) = distinct (map g xs)"
  by (induction xs) (simp_all add: distinct_map_insort)






















section \<open>Behavioral regression comparator (\<open>compareBehavior\<close>)\<close>

datatype BehavioralIssueType =
  options_changed | integration_changed | condition_changed | feature_missing | feature_added

datatype issueValue = VStr string | VList "string list" | VBool bool | VNull

record BehavioralIssue =
  bi_type :: BehavioralIssueType
  bi_featureName :: string
  bi_lineNumber :: nat
  selection :: "string option"
  bi_baseline :: issueValue
  bi_test :: issueValue
  severity :: Severity
  details :: "string option"

record SelectionComparison =
  sc_featureName :: string
  baselineValue :: "string option"
  testValue :: "string option"
  isMatch :: bool

record RegressionSummary =
  totalFeaturesCompared :: nat
  behavioralIssuesFound :: nat
  userChoicesDiverged :: nat
  errors :: nat
  warnings :: nat
  infos :: nat

record RegressionResult =
  matchedBaselineName :: string
  matchedBaselineId :: string
  rr_matchScore :: int
  rr_matchingSelections :: "SelectionComparison list"
  divergentSelections :: "SelectionComparison list"
  rr_issues :: "BehavioralIssue list"
  summary :: RegressionSummary

record BaselineInfo =
  info_id :: string
  info_name :: string
  info_matchScore :: int

subsection \<open>Helpers of the JavaScript semantics\<close>

definition optValue :: "string option \<Rightarrow> issueValue" where
  "optValue v = (case v of Some s \<Rightarrow> VStr s | None \<Rightarrow> VNull)"

definition digitChar :: "nat \<Rightarrow> char" where
  "digitChar d = char_of (48 + d)"

fun showNat :: "nat \<Rightarrow> string" where
  \<comment> \<open>the decimal rendering of a count in a template literal\<close>
  "showNat n = (if n < 10 then [digitChar n] else showNat (n div 10) @ [digitChar (n mod 10)])"

fun joinWith :: "string \<Rightarrow> string list \<Rightarrow> string" where
  \<comment> \<open>\<open>xs.join(sep)\<close>\<close>
  "joinWith sep [] = []"
| "joinWith sep [x] = x"
| "joinWith sep (x # y # ys) = x @ sep @ joinWith sep (y # ys)"

definition stringOfProp :: "propValue option \<Rightarrow> string" where
  \<comment> \<open>\<open>String(v)\<close>, where a missing entry is \<open>undefined\<close>\<close>
  "stringOfProp v =
     (case v of None \<Rightarrow> ''undefined'' | Some PNull \<Rightarrow> ''null'' | Some (PStr s) \<Rightarrow> s | Some (PNum s) \<Rightarrow> s)"

definition setsEqual :: "'a list \<Rightarrow> 'a list \<Rightarrow> bool" where
  \<comment> \<open>on the element lists of two sets\<close>
  "setsEqual a b = (if length a \<noteq> length b then False else list_all (\<lambda>item. item \<in> set b) a)"

definition mapFromPairs :: "(string \<times> 'v) list \<Rightarrow> 'v jsMap" where
  \<comment> \<open>\<open>new Map(pairs)\<close>, and a loop of \<open>set\<close> calls on an empty map\<close>
  "mapFromPairs ps = foldl (\<lambda>m (k, v). mapSet m k v) [] ps"

definition quoted :: "string \<Rightarrow> string" where
  "quoted s = [CHR 0x22] @ s @ [CHR 0x22]"

subsection \<open>Integration outputs\<close>

definition firstRowLine :: "IntegrationTemplate \<Rightarrow> nat" where
  \<comment> \<open>\<open>rows[0]?.lineNumber || 0\<close>\<close>
  "firstRowLine t = (case rows t of [] \<Rightarrow> 0 | r # _ \<Rightarrow> row_lineNumber r)"

definition propIssues :: "string \<Rightarrow> string \<Rightarrow> IntegrationOutputRow \<Rightarrow> IntegrationOutputRow
    \<Rightarrow> BehavioralIssue list" where
  \<comment> \<open>the loop over the properties of a baseline row that has a test row of the same id\<close>
  "propIssues templateName rid baselineRow testRow =
     concat (map (\<lambda>(prop, baseValue).
        (if stringOfProp (Some baseValue) \<noteq> stringOfProp (mapGet (properties testRow) prop)
         then [\<lparr>bi_type = integration_changed,
                 bi_featureName = templateName @ ''['' @ rid @ ''].'' @ prop,
                 bi_lineNumber = row_lineNumber testRow, selection = None,
                 bi_baseline = VStr (stringOfProp (Some baseValue)),
                 bi_test = VStr (stringOfProp (mapGet (properties testRow) prop)),
                 severity = Warning,
                 details = Some ''Property value changed in integration output''\<rparr>]
         else [])) (properties baselineRow))"

definition rowIssues :: "string \<Rightarrow> IntegrationOutputRow jsMap \<Rightarrow> string \<times> IntegrationOutputRow
    \<Rightarrow> BehavioralIssue list" where
  "rowIssues templateName testRowsById entry =
     (case entry of (rid, baselineRow) \<Rightarrow>
        (case mapGet testRowsById rid of
           None \<Rightarrow>
             [\<lparr>bi_type = integration_changed,
               bi_featureName = templateName @ ''['' @ rid @ '']'',
               bi_lineNumber = row_lineNumber baselineRow, selection = None,
               bi_baseline = VStr rid, bi_test = VStr ''Row missing'', severity = Warning,
               details = Some (''Integration row '' @ rid @ '' missing from template '' @ templateName)\<rparr>]
         | Some testRow \<Rightarrow> propIssues templateName rid baselineRow testRow))"

definition templateIssues :: "IntegrationOutputSummary \<Rightarrow> IntegrationOutputSummary \<Rightarrow> string
    \<Rightarrow> BehavioralIssue list" where
  \<comment> \<open>one round of the loop over the template names\<close>
  "templateIssues b t templateName =
     (case (mapGet (templates b) templateName, mapGet (templates t) templateName) of
        (Some baselineTemplate, None) \<Rightarrow>
          [\<lparr>bi_type = integration_changed, bi_featureName = templateName,
            bi_lineNumber = firstRowLine baselineTemplate, selection = None,
            bi_baseline = VStr (showNat (length (rows baselineTemplate)) @ '' rows''),
            bi_test = VStr ''Template missing'', severity = Warning,
            details = Some (''Integration template '' @ quoted templateName @ '' missing from test trace'')\<rparr>]
      | (None, Some testTemplate) \<Rightarrow> []
      | (Some baselineTemplate, Some testTemplate) \<Rightarrow>
          (if length (rows baselineTemplate) \<noteq> length (rows testTemplate)
           then [\<lparr>bi_type = integration_changed, bi_featureName = templateName,
                   bi_lineNumber = firstRowLine testTemplate, selection = None,
                   bi_baseline = VStr (showNat (length (rows baselineTemplate)) @ '' rows''),
                   bi_test = VStr (showNat (length (rows testTemplate)) @ '' rows''),
                   severity = Warning,
                   details = Some (''Row count changed from '' @ showNat (length (rows baselineTemplate))
                                   @ '' to '' @ showNat (length (rows testTemplate)))\<rparr>]
           else [])
          @ concat (map (rowIssues templateName
                           (mapFromPairs (map (\<lambda>r. (row_id r, r)) (rows testTemplate))))
                      (mapFromPairs (map (\<lambda>r. (row_id r, r)) (rows baselineTemplate))))
      | (None, None) \<Rightarrow> [])"

definition compareIntegrationBehavior :: "IntegrationOutputSummary \<Rightarrow> IntegrationOutputSummary
    \<Rightarrow> SelectionComparison list \<Rightarrow> BehavioralIssue list" where
  \<comment> \<open>the third parameter is not read by the body of the source function\<close>
  "compareIntegrationBehavior b t matchingSels =
     concat (map (templateIssues b t) (dedup (mapKeys (templates b) @ mapKeys (templates t))))"

subsection \<open>Conditions\<close>

definition createKey :: "ConditionEvaluation \<Rightarrow> string" where
  "createKey c = ce_ruleset c @ '':'' @ ce_ruleId c @ '':'' @ expression c"

definition firedText :: "bool \<Rightarrow> string" where
  "firedText r = (if r then ''fired'' else ''was skipped'')"

definition conditionIssue :: "ConditionEvaluation jsMap \<Rightarrow> string \<times> ConditionEvaluation
    \<Rightarrow> BehavioralIssue list" where
  "conditionIssue testMap entry =
     (case entry of (key, baselineCondition) \<Rightarrow>
        (case mapGet testMap key of
           Some testCondition \<Rightarrow>
             (if ce_result baselineCondition \<noteq> ce_result testCondition
              then [\<lparr>bi_type = condition_changed, bi_featureName = ce_ruleName baselineCondition,
                      bi_lineNumber = ce_lineNumber testCondition,
                      selection = Some (expression baselineCondition),
                      bi_baseline = VBool (ce_result baselineCondition),
                      bi_test = VBool (ce_result testCondition), severity = Warning,
                      details = Some (''Condition '' @ quoted (ce_ruleName baselineCondition) @ '' ''
                         @ firedText (ce_result baselineCondition) @ '' in baseline but ''
                         @ firedText (ce_result testCondition) @ '' in test'')\<rparr>]
              else [])
         | None \<Rightarrow> []))"

definition compareConditionBehavior :: "ConditionSummary \<Rightarrow> ConditionSummary \<Rightarrow> BehavioralIssue list" where
  "compareConditionBehavior b t =
     (let baselineMap = mapFromPairs (map (\<lambda>c. (createKey c, c)) (conditions b));
          testMap = mapFromPairs (map (\<lambda>c. (createKey c, c)) (conditions t))
      in concat (map (conditionIssue testMap) baselineMap))"

subsection \<open>Features and the result\<close>

record cmpState =
  cs_issues :: "BehavioralIssue list"
  cs_matching :: "SelectionComparison list"
  cs_divergent :: "SelectionComparison list"

definition optionsIssue :: "string \<Rightarrow> FeatureData \<Rightarrow> FeatureData \<Rightarrow> BehavioralIssue list" where
  \<comment> \<open>for a matching selection: the issue raised when the two option sets differ\<close>
  "optionsIssue nm baselineFeature testFeature =
     (if \<not> setsEqual (dedup (options baselineFeature)) (dedup (options testFeature)) then
        (let addedOptions = filter (\<lambda>opt. opt \<notin> set (options baselineFeature)) (options testFeature);
             removedOptions = filter (\<lambda>opt. opt \<notin> set (options testFeature)) (options baselineFeature)
         in [\<lparr>bi_type = options_changed, bi_featureName = nm,
               bi_lineNumber = fd_lineNumber testFeature, selection = fd_selectedValue testFeature,
               bi_baseline = VList (options baselineFeature), bi_test = VList (options testFeature),
               severity = Error,
               details = Some (if length removedOptions > 0
                               then ''Missing options: '' @ joinWith '', '' removedOptions
                               else ''Added options: '' @ joinWith '', '' addedOptions)\<rparr>])
      else [])"

definition featureStep :: "ParsedTrace \<Rightarrow> ParsedTrace \<Rightarrow> cmpState \<Rightarrow> string \<Rightarrow> cmpState" where
  \<comment> \<open>one round of the loop over the feature names of both traces\<close>
  "featureStep b t st nm =
     (case (mapGet (features b) nm, mapGet (features t) nm) of
        (Some baselineFeature, None) \<Rightarrow>
          st\<lparr>cs_issues := cs_issues st @
            [\<lparr>bi_type = feature_missing, bi_featureName = nm,
              bi_lineNumber = fd_lineNumber baselineFeature,
              selection = fd_selectedValue baselineFeature,
              bi_baseline = optValue (fd_selectedValue baselineFeature), bi_test = VNull,
              severity = Error,
              details = Some (''Feature '' @ quoted nm @ '' exists in baseline but not in test trace'')\<rparr>]\<rparr>
      | (None, Some testFeature) \<Rightarrow>
          st\<lparr>cs_issues := cs_issues st @
            [\<lparr>bi_type = feature_added, bi_featureName = nm,
              bi_lineNumber = fd_lineNumber testFeature,
              selection = fd_selectedValue testFeature,
              bi_baseline = VNull, bi_test = optValue (fd_selectedValue testFeature),
              severity = Info,
              details = Some (''New feature '' @ quoted nm @ '' appears in test but not baseline'')\<rparr>]\<rparr>
      | (Some baselineFeature, Some testFeature) \<Rightarrow>
          (let comparison = \<lparr>sc_featureName = nm, baselineValue = fd_selectedValue baselineFeature,
                              testValue = fd_selectedValue testFeature,
                              isMatch = (fd_selectedValue baselineFeature = fd_selectedValue testFeature)\<rparr>
           in if isMatch comparison
              then st\<lparr>cs_matching := cs_matching st @ [comparison],
                      cs_issues := cs_issues st @ optionsIssue nm baselineFeature testFeature\<rparr>
              else st\<lparr>cs_divergent := cs_divergent st @ [comparison]\<rparr>)
      | (None, None) \<Rightarrow> st)"

definition severityOrder :: "Severity \<Rightarrow> nat" where
  "severityOrder sv = (case sv of Error \<Rightarrow> 0 | Warning \<Rightarrow> 1 | Info \<Rightarrow> 2)"

definition countSeverity :: "Severity \<Rightarrow> BehavioralIssue list \<Rightarrow> nat" where
  "countSeverity sv is = length (filter (\<lambda>i. severity i = sv) is)"

definition compareBehavior :: "ParsedTrace \<Rightarrow> ParsedTrace \<Rightarrow> BaselineInfo \<Rightarrow> RegressionResult" where
  "compareBehavior b t baselineInfo =
     (let allFeatures = dedup (mapKeys (features b) @ mapKeys (features t));
          st = foldl (featureStep b t) \<lparr>cs_issues = [], cs_matching = [], cs_divergent = []\<rparr> allFeatures;
          integrationIssues =
            compareIntegrationBehavior (integrationOutputs b) (integrationOutputs t) (cs_matching st);
          conditionIssues = compareConditionBehavior (conditionTracking b) (conditionTracking t);
          allIssues = cs_issues st @ integrationIssues @ conditionIssues;
          nErrors = countSeverity Error allIssues;
          nWarnings = countSeverity Warning allIssues;
          nInfos = countSeverity Info allIssues
      in \<lparr>matchedBaselineName = info_name baselineInfo,
          matchedBaselineId = info_id baselineInfo,
          rr_matchScore = info_matchScore baselineInfo,
          rr_matchingSelections = cs_matching st,
          divergentSelections = cs_divergent st,
          rr_issues = sort_key (\<lambda>i. severityOrder (severity i)) allIssues,
          summary = \<lparr>totalFeaturesCompared = length allFeatures,
                      behavioralIssuesFound = nErrors + nWarnings,
                      userChoicesDiverged = length (cs_divergent st),
                      errors = nErrors, warnings = nWarnings, infos = nInfos\<rparr>\<rparr>)"

definition wellFormed :: "ParsedTrace \<Rightarrow> bool" where
  \<comment> \<open>the keys of a \<open>Map\<close> are distinct: here, of the property map of every integration row\<close>
  "wellFormed t =
     list_all (\<lambda>(nm, tpl). list_all (\<lambda>r. distinct (map fst (properties r))) (rows tpl))
       (templates (integrationOutputs t))"


text \<open>Example data: a trace with one feature, one integration row and one condition, and a
  pair of traces without features whose shared template has one row and no row.\<close>

definition sampleTrace :: ParsedTrace where
  "sampleTrace = emptyTrace
     \<lparr>features :=
        [(''FEAT'', \<lparr>fd_name = ''FEAT'', caption = ''Feature'', fd_selectedValue = Some ''A'',
                     options = [''A'', ''B''], optionListId = None, optionListGroup = None,
                     fd_lineNumber = 3\<rparr>)],
      integrationOutputs :=
        \<lparr>templates =
           [(''Order'', \<lparr>tpl_name = ''Order'', columns = [''Qty'', ''Code''],
                         rows = [\<lparr>row_id = ''1'',
                                  properties = [(''Qty'', PNum ''10''), (''Code'', PStr ''X'')],
                                  row_lineNumber = 7\<rparr>]\<rparr>)],
         totalRows = 1\<rparr>,
      conditionTracking :=
        \<lparr>totalConditions = 1, firedCount = 1, skippedCount = 0,
         conditions = [\<lparr>ce_ruleId = ''1'', ce_ruleName = ''Check'', ce_ruleType = ''ConditionRule'',
                        ce_ruleset = ''R'', expression = ''=X'', ce_trace = [], ce_result = True,
                        ce_lineNumber = 9\<rparr>]\<rparr>\<rparr>"

definition orderTrace :: "IntegrationOutputRow list \<Rightarrow> ParsedTrace" where
  "orderTrace rs = emptyTrace
     \<lparr>integrationOutputs :=
        \<lparr>templates = [(''Order'', \<lparr>tpl_name = ''Order'', columns = [''Qty''], rows = rs\<rparr>)],
         totalRows = length rs\<rparr>\<rparr>"

subsection \<open>A trace compared with itself\<close>

lemma setsEqual_refl: "setsEqual a a"
  by (simp add: setsEqual_def list_all_iff)

lemma optionsIssue_self: "optionsIssue nm f f = []"
  by (simp add: optionsIssue_def setsEqual_refl)

lemma featureStep_self:
  "cs_issues (featureStep T T st nm) = cs_issues st \<and> cs_divergent (featureStep T T st nm) = cs_divergent st"
  by (cases "mapGet (features T) nm") (simp_all add: featureStep_def Let_def optionsIssue_self)

lemma foldl_featureStep_self:
  "cs_issues (foldl (featureStep T T) st ns) = cs_issues st
   \<and> cs_divergent (foldl (featureStep T T) st ns) = cs_divergent st"
  by (induction ns arbitrary: st) (simp_all add: featureStep_self)

lemma distinct_mapSet: "distinct (map fst m) \<Longrightarrow> distinct (map fst (mapSet m k v))"
proof (induction m)
  case Nil
  then show ?case by simp
next
  case (Cons p m)
  have "fst ` set (mapSet m k v) \<subseteq> insert k (fst ` set m)"
    using set_mapSet[of m k v] by auto
  with Cons show ?case by (cases p) auto
qed

lemma mapFromPairs_acc:
  "distinct (map fst m) \<Longrightarrow>
     distinct (map fst (foldl (\<lambda>m (k, v). mapSet m k v) m ps))
     \<and> set (foldl (\<lambda>m (k, v). mapSet m k v) m ps) \<subseteq> set m \<union> set ps"
proof (induction ps arbitrary: m)
  case Nil
  then show ?case by simp
next
  case (Cons p ps)
  obtain k v where p: "p = (k, v)" by (cases p)
  have d: "distinct (map fst (mapSet m k v))" using Cons.prems by (rule distinct_mapSet)
  from Cons.IH[OF d] set_mapSet[of m k v] show ?case by (auto simp: p)
qed

lemma distinct_mapFromPairs: "distinct (map fst (mapFromPairs ps))"
  using mapFromPairs_acc[of "[]" ps] by (simp add: mapFromPairs_def)

lemma set_mapFromPairs: "set (mapFromPairs ps) \<subseteq> set ps"
  using mapFromPairs_acc[of "[]" ps] by (simp add: mapFromPairs_def)

lemma mapGet_distinct: "distinct (map fst m) \<Longrightarrow> (k, v) \<in> set m \<Longrightarrow> mapGet m k = Some v"
  by (simp add: mapGet_def)

lemma propIssues_self:
  assumes "distinct (map fst (properties r))"
  shows "propIssues nm rid r r = []"
  using mapGet_distinct[OF assms] by (auto simp: propIssues_def)

lemma rowIssues_self:
  assumes "\<forall>r \<in> set rs. distinct (map fst (properties r))"
    and "e \<in> set (mapFromPairs (map (\<lambda>r. (row_id r, r)) rs))"
  shows "rowIssues nm (mapFromPairs (map (\<lambda>r. (row_id r, r)) rs)) e = []"
proof -
  obtain rid r where e: "e = (rid, r)" by (cases e)
  have g: "mapGet (mapFromPairs (map (\<lambda>r. (row_id r, r)) rs)) rid = Some r"
    by (rule mapGet_distinct[OF distinct_mapFromPairs]) (use assms(2) in \<open>simp add: e\<close>)
  have "r \<in> set rs" using assms(2) set_mapFromPairs[of "map (\<lambda>r. (row_id r, r)) rs"] by (auto simp: e)
  with assms(1) have "distinct (map fst (properties r))" by blast
  then show ?thesis by (simp add: rowIssues_def e g propIssues_self)
qed

lemma templateIssues_self:
  assumes "list_all (\<lambda>(nm, tpl). list_all (\<lambda>r. distinct (map fst (properties r))) (rows tpl)) (templates I)"
  shows "templateIssues I I nm = []"
proof (cases "mapGet (templates I) nm")
  case None
  then show ?thesis by (simp add: templateIssues_def)
next
  case (Some tpl)
  then have "(nm, tpl) \<in> set (templates I)" by (rule mapGet_mem)
  with assms have "\<forall>r \<in> set (rows tpl). distinct (map fst (properties r))"
    by (auto simp: list_all_iff)
  then have "\<forall>e \<in> set (mapFromPairs (map (\<lambda>r. (row_id r, r)) (rows tpl))).
      rowIssues nm (mapFromPairs (map (\<lambda>r. (row_id r, r)) (rows tpl))) e = []"
    using rowIssues_self by blast
  then show ?thesis by (simp add: templateIssues_def Some)
qed

lemma compareIntegrationBehavior_self:
  assumes "list_all (\<lambda>(nm, tpl). list_all (\<lambda>r. distinct (map fst (properties r))) (rows tpl)) (templates I)"
  shows "compareIntegrationBehavior I I ms = []"
  by (simp add: compareIntegrationBehavior_def templateIssues_self[OF assms])

lemma compareConditionBehavior_self: "compareConditionBehavior C C = []"
proof -
  have "conditionIssue (mapFromPairs (map (\<lambda>c. (createKey c, c)) (conditions C))) e = []"
    if "e \<in> set (mapFromPairs (map (\<lambda>c. (createKey c, c)) (conditions C)))" for e
  proof -
    obtain k c where e: "e = (k, c)" by (cases e)
    have "mapGet (mapFromPairs (map (\<lambda>c. (createKey c, c)) (conditions C))) k = Some c"
      by (rule mapGet_distinct[OF distinct_mapFromPairs]) (use that in \<open>simp add: e\<close>)
    then show ?thesis by (simp add: conditionIssue_def e)
  qed
  then show ?thesis by (simp add: compareConditionBehavior_def Let_def)
qed

text \<open>
  Claim C2: for every parsed trace \<open>T\<close> (the keys of each of its row property maps
  distinct, as the keys of a \<open>Map\<close> are), \<open>compareBehavior(T, T)\<close> has an empty issue
  list, so the counts of errors, warnings and infos and \<open>behavioralIssuesFound\<close> are 0,
  and it has no divergent selection.
\<close>

theorem compareBehavior_self:
  assumes "wellFormed T"
  shows "rr_issues (compareBehavior T T baselineInfo) = []
    \<and> divergentSelections (compareBehavior T T baselineInfo) = []
    \<and> errors (summary (compareBehavior T T baselineInfo)) = 0
    \<and> warnings (summary (compareBehavior T T baselineInfo)) = 0
    \<and> infos (summary (compareBehavior T T baselineInfo)) = 0
    \<and> behavioralIssuesFound (summary (compareBehavior T T baselineInfo)) = 0
    \<and> userChoicesDiverged (summary (compareBehavior T T baselineInfo)) = 0"
proof -
  have i: "compareIntegrationBehavior (integrationOutputs T) (integrationOutputs T) ms = []" for ms
    using assms by (simp add: wellFormed_def compareIntegrationBehavior_self)
  show ?thesis
    by (simp add: compareBehavior_def Let_def foldl_featureStep_self i compareConditionBehavior_self
        countSeverity_def)
qed


text \<open>The theorem at the example trace.\<close>

theorem compareBehavior_self_witness:
  "wellFormed sampleTrace
   \<and> rr_issues (compareBehavior sampleTrace sampleTrace
         \<lparr>info_id = ''b1'', info_name = ''base'', info_matchScore = 100\<rparr>) = []
   \<and> divergentSelections (compareBehavior sampleTrace sampleTrace
         \<lparr>info_id = ''b1'', info_name = ''base'', info_matchScore = 100\<rparr>) = []"
proof -
  have h: "wellFormed sampleTrace" by code_simp
  from compareBehavior_self[OF h, of "\<lparr>info_id = ''b1'', info_name = ''base'', info_matchScore = 100\<rparr>"]
  show ?thesis using h by simp
qed

subsection \<open>Integration issues without a matching selection\<close>

text \<open>
  Claim C1 at two traces without any feature, whose template \<open>Order\<close> has one row in
  the baseline and none in the test trace: there is no matching selection, and
  \<open>compareBehavior\<close> reports two issues of type \<open>integration_changed\<close>, one for the row
  count and one for the missing row.
\<close>

theorem integration_issues_without_matching_selection:
  "rr_matchingSelections (compareBehavior
       (orderTrace [\<lparr>row_id = ''1'', properties = [(''Qty'', PNum ''10'')], row_lineNumber = 7\<rparr>])
       (orderTrace []) \<lparr>info_id = ''b1'', info_name = ''base'', info_matchScore = 0\<rparr>) = []
   \<and> map bi_type (rr_issues (compareBehavior
       (orderTrace [\<lparr>row_id = ''1'', properties = [(''Qty'', PNum ''10'')], row_lineNumber = 7\<rparr>])
       (orderTrace []) \<lparr>info_id = ''b1'', info_name = ''base'', info_matchScore = 0\<rparr>))
     = [integration_changed, integration_changed]
   \<and> map details (rr_issues (compareBehavior
       (orderTrace [\<lparr>row_id = ''1'', properties = [(''Qty'', PNum ''10'')], row_lineNumber = 7\<rparr>])
       (orderTrace []) \<lparr>info_id = ''b1'', info_name = ''base'', info_matchScore = 0\<rparr>))
     = [Some ''Row count changed from 1 to 0'', Some ''Integration row 1 missing from template Order'']"
  by code_simp


section \<open>Storage round trip (\<open>serializeTrace\<close>, \<open>reconstructTrace\<close>)\<close>

text \<open>
  A plain object is the list of its own properties in creation order.
  \<open>Object.fromEntries\<close> creates them in the order of the entries, a repeated key
  keeping its place; \<open>Object.entries\<close> lists the array-index keys first, in ascending
  numeric order, and then the other keys in creation order.
\<close>

type_synonym 'v jsObject = "(string \<times> 'v) list"

definition objectFromEntries :: "(string \<times> 'v) list \<Rightarrow> 'v jsObject" where
  "objectFromEntries es = mapFromPairs es"

definition decimalValue :: "string \<Rightarrow> int" where
  "decimalValue s = foldl (\<lambda>n c. 10 * n + (of_char c - 48)) 0 s"

definition isArrayIndex :: "string \<Rightarrow> bool" where
  \<comment> \<open>the canonical decimal rendering of an integer from 0 to \<open>2^32 - 2\<close>\<close>
  "isArrayIndex s =
     (s \<noteq> [] \<and> list_all isDigit s \<and> (s = ''0'' \<or> hd s \<noteq> CHR ''0'') \<and> decimalValue s \<le> 4294967294)"

definition objectEntries :: "'v jsObject \<Rightarrow> (string \<times> 'v) list" where
  "objectEntries ob =
     sort_key (\<lambda>(k, v). decimalValue k) (filter (\<lambda>(k, v). isArrayIndex k) ob)
     @ filter (\<lambda>(k, v). \<not> isArrayIndex k) ob"

text \<open>
  After serialization a mapping field holds a plain object; \<open>reconstructTrace\<close> tests
  each with \<open>instanceof Map\<close>. A field of the stored form is therefore either of the two.
\<close>

datatype 'v dict = IsMap "'v jsMap" | IsObject "'v jsObject"

record StoredRuleset =
  srs_name :: string
  srs_namespace :: string
  srs_executionCount :: nat
  srs_rules :: "RuleStats dict"

record StoredRulesSummary =
  s_totalExecutions :: nat
  s_uniqueRules :: nat
  s_rulesets :: "StoredRuleset dict"
  s_topRules :: "RuleStats list"
  s_ruleTypeBreakdown :: "nat dict"

record StoredRow =
  s_row_id :: string
  s_properties :: "propValue dict"
  s_row_lineNumber :: nat

record StoredTemplate =
  s_tpl_name :: string
  s_columns :: "string list"
  s_rows :: "StoredRow list"

record StoredIntegration =
  s_templates :: "StoredTemplate dict"
  s_totalRows :: nat

record StoredVariableTracking =
  s_variables :: "VariableSummary dict"
  s_totalAssignments :: nat
  s_uniqueVariables :: nat

record StoredTrace =
  s_metadata :: ConfigurationMetadata
  s_features :: "FeatureData dict"
  s_rulesSummary :: StoredRulesSummary
  s_integrationOutputs :: StoredIntegration
  s_variableTracking :: StoredVariableTracking
  s_conditionTracking :: ConditionSummary
  s_issues :: IssuesSummary
  s_timeline :: RuleExecutionTimeline
  s_rulesExecuted :: nat
  s_rollbackPoints :: nat
  s_parseErrors :: "string list"

definition serializeRuleset :: "RulesetSummary \<Rightarrow> StoredRuleset" where
  \<comment> \<open>\<open>{...ruleset, rules: Object.fromEntries(ruleset.rules)}\<close>\<close>
  "serializeRuleset r =
     \<lparr>srs_name = rss_name r, srs_namespace = rss_namespace r,
      srs_executionCount = rss_executionCount r,
      srs_rules = IsObject (objectFromEntries (rules r))\<rparr>"

definition serializeRow :: "IntegrationOutputRow \<Rightarrow> StoredRow" where
  "serializeRow r =
     \<lparr>s_row_id = row_id r, s_properties = IsObject (objectFromEntries (properties r)),
      s_row_lineNumber = row_lineNumber r\<rparr>"

definition serializeTemplate :: "IntegrationTemplate \<Rightarrow> StoredTemplate" where
  "serializeTemplate t =
     \<lparr>s_tpl_name = tpl_name t, s_columns = columns t, s_rows = map serializeRow (rows t)\<rparr>"

definition serializeTrace :: "ParsedTrace \<Rightarrow> StoredTrace" where
  "serializeTrace t =
     \<lparr>s_metadata = metadata t,
      s_features = IsObject (objectFromEntries (features t)),
      s_rulesSummary =
        \<lparr>s_totalExecutions = totalExecutions (rulesSummary t),
         s_uniqueRules = uniqueRules (rulesSummary t),
         s_rulesets = IsObject (objectFromEntries
            (map (\<lambda>(key, ruleset). (key, serializeRuleset ruleset)) (rulesets (rulesSummary t)))),
         s_topRules = topRules (rulesSummary t),
         s_ruleTypeBreakdown = IsObject (objectFromEntries (ruleTypeBreakdown (rulesSummary t)))\<rparr>,
      s_integrationOutputs =
        \<lparr>s_templates = IsObject (objectFromEntries
            (map (\<lambda>(key, template). (key, serializeTemplate template))
               (templates (integrationOutputs t)))),
         s_totalRows = totalRows (integrationOutputs t)\<rparr>,
      s_variableTracking =
        \<lparr>s_variables = IsObject (objectFromEntries (variables (variableTracking t))),
         s_totalAssignments = totalAssignments (variableTracking t),
         s_uniqueVariables = uniqueVariables (variableTracking t)\<rparr>,
      s_conditionTracking = conditionTracking t, s_issues = issues t, s_timeline = timeline t,
      s_rulesExecuted = rulesExecuted t, s_rollbackPoints = rollbackPoints t,
      s_parseErrors = parseErrors t\<rparr>"

definition toMap :: "'v dict \<Rightarrow> 'v dict" where
  \<comment> \<open>\<open>if (!(x instanceof Map)) x = new Map(Object.entries(x))\<close>\<close>
  "toMap d = (case d of IsMap m \<Rightarrow> IsMap m | IsObject ob \<Rightarrow> IsMap (mapFromPairs (objectEntries ob)))"

definition reconstructRuleset :: "StoredRuleset \<Rightarrow> StoredRuleset" where
  "reconstructRuleset r = r\<lparr>srs_rules := toMap (srs_rules r)\<rparr>"

definition reconstructTemplate :: "StoredTemplate \<Rightarrow> StoredTemplate" where
  "reconstructTemplate t =
     t\<lparr>s_rows := map (\<lambda>row. row\<lparr>s_properties := toMap (s_properties row)\<rparr>) (s_rows t)\<rparr>"

definition reconstructTrace :: "StoredTrace \<Rightarrow> StoredTrace" where
  \<comment> \<open>the nested maps are rebuilt only where the outer field was a plain object\<close>
  "reconstructTrace t =
     (let rs = s_rulesSummary t;
          rs1 = (case s_rulesets rs of
                   IsMap m \<Rightarrow> rs
                 | IsObject ob \<Rightarrow>
                     rs\<lparr>s_rulesets := IsMap (map (\<lambda>(k, r). (k, reconstructRuleset r))
                                                 (mapFromPairs (objectEntries ob)))\<rparr>);
          rs2 = rs1\<lparr>s_ruleTypeBreakdown := toMap (s_ruleTypeBreakdown rs1)\<rparr>;
          io = s_integrationOutputs t;
          io1 = (case s_templates io of
                   IsMap m \<Rightarrow> io
                 | IsObject ob \<Rightarrow>
                     io\<lparr>s_templates := IsMap (map (\<lambda>(k, tp). (k, reconstructTemplate tp))
                                                  (mapFromPairs (objectEntries ob)))\<rparr>);
          vt = s_variableTracking t
      in t\<lparr>s_features := toMap (s_features t),
           s_rulesSummary := rs2,
           s_integrationOutputs := io1,
           s_variableTracking := vt\<lparr>s_variables := toMap (s_variables vt)\<rparr>\<rparr>)"

text \<open>
  A stored trace whose mapping fields all hold a \<open>Map\<close> is a \<open>ParsedTrace\<close>.
\<close>

definition asMap :: "'v dict \<Rightarrow> 'v jsMap option" where
  "asMap d = (case d of IsMap m \<Rightarrow> Some m | IsObject ob \<Rightarrow> None)"

definition entriesOpt :: "(string \<times> 'a option) list \<Rightarrow> (string \<times> 'a) list option" where
  "entriesOpt es = those (map (\<lambda>(k, v). map_option (\<lambda>x. (k, x)) v) es)"

definition rulesetOf :: "StoredRuleset \<Rightarrow> RulesetSummary option" where
  "rulesetOf r =
     map_option (\<lambda>m. \<lparr>rss_name = srs_name r, rss_namespace = srs_namespace r,
                        rss_executionCount = srs_executionCount r, rules = m\<rparr>)
       (asMap (srs_rules r))"

definition rowOf :: "StoredRow \<Rightarrow> IntegrationOutputRow option" where
  "rowOf r =
     map_option (\<lambda>m. \<lparr>row_id = s_row_id r, properties = m, row_lineNumber = s_row_lineNumber r\<rparr>)
       (asMap (s_properties r))"

definition templateOf :: "StoredTemplate \<Rightarrow> IntegrationTemplate option" where
  "templateOf t =
     map_option (\<lambda>rs. \<lparr>tpl_name = s_tpl_name t, columns = s_columns t, rows = rs\<rparr>)
       (those (map rowOf (s_rows t)))"

definition parsedOf :: "StoredTrace \<Rightarrow> ParsedTrace option" where
  "parsedOf t =
     (case (asMap (s_features t),
            Option.bind (asMap (s_rulesets (s_rulesSummary t)))
              (\<lambda>m. entriesOpt (map (\<lambda>(k, r). (k, rulesetOf r)) m)),
            asMap (s_ruleTypeBreakdown (s_rulesSummary t)),
            Option.bind (asMap (s_templates (s_integrationOutputs t)))
              (\<lambda>m. entriesOpt (map (\<lambda>(k, tp). (k, templateOf tp)) m)),
            asMap (s_variables (s_variableTracking t))) of
        (Some fs, Some rss, Some rtb, Some tps, Some vs) \<Rightarrow>
          Some \<lparr>metadata = s_metadata t, features = fs,
                rulesSummary = \<lparr>totalExecutions = s_totalExecutions (s_rulesSummary t),
                                 uniqueRules = s_uniqueRules (s_rulesSummary t),
                                 rulesets = rss, topRules = s_topRules (s_rulesSummary t),
                                 ruleTypeBreakdown = rtb\<rparr>,
                integrationOutputs = \<lparr>templates = tps,
                                       totalRows = s_totalRows (s_integrationOutputs t)\<rparr>,
                variableTracking = \<lparr>variables = vs,
                                     totalAssignments = s_totalAssignments (s_variableTracking t),
                                     uniqueVariables = s_uniqueVariables (s_variableTracking t)\<rparr>,
                conditionTracking = s_conditionTracking t, issues = s_issues t,
                timeline = s_timeline t, rulesExecuted = s_rulesExecuted t,
                rollbackPoints = s_rollbackPoints t, parseErrors = s_parseErrors t\<rparr>
      | _ \<Rightarrow> None)"

definition roundTrip :: "ParsedTrace \<Rightarrow> ParsedTrace option" where
  "roundTrip t = parsedOf (reconstructTrace (serializeTrace t))"

text \<open>
  Two traces are the same up to the iteration order of their maps when their fields
  agree, every map seen as the finite function from its keys to its values.
\<close>

definition rulesetView :: "RulesetSummary \<Rightarrow> string \<times> string \<times> nat \<times> (string \<rightharpoonup> RuleStats)" where
  "rulesetView r = (rss_name r, rss_namespace r, rss_executionCount r, map_of (rules r))"

definition rowView :: "IntegrationOutputRow \<Rightarrow> string \<times> (string \<rightharpoonup> propValue) \<times> nat" where
  "rowView r = (row_id r, map_of (properties r), row_lineNumber r)"

definition templateView ::
    "IntegrationTemplate \<Rightarrow> string \<times> string list \<times> (string \<times> (string \<rightharpoonup> propValue) \<times> nat) list" where
  "templateView t = (tpl_name t, columns t, map rowView (rows t))"

definition sameMappings :: "ParsedTrace \<Rightarrow> ParsedTrace \<Rightarrow> bool" where
  "sameMappings t t' =
     (map_of (features t') = map_of (features t)
      \<and> set (mapKeys (features t')) = set (mapKeys (features t))
      \<and> map_of (map (\<lambda>(k, r). (k, rulesetView r)) (rulesets (rulesSummary t')))
          = map_of (map (\<lambda>(k, r). (k, rulesetView r)) (rulesets (rulesSummary t)))
      \<and> set (mapKeys (rulesets (rulesSummary t'))) = set (mapKeys (rulesets (rulesSummary t)))
      \<and> map_of (ruleTypeBreakdown (rulesSummary t')) = map_of (ruleTypeBreakdown (rulesSummary t))
      \<and> set (mapKeys (ruleTypeBreakdown (rulesSummary t')))
          = set (mapKeys (ruleTypeBreakdown (rulesSummary t)))
      \<and> map_of (map (\<lambda>(k, tp). (k, templateView tp)) (templates (integrationOutputs t')))
          = map_of (map (\<lambda>(k, tp). (k, templateView tp)) (templates (integrationOutputs t)))
      \<and> set (mapKeys (templates (integrationOutputs t')))
          = set (mapKeys (templates (integrationOutputs t)))
      \<and> map_of (variables (variableTracking t')) = map_of (variables (variableTracking t))
      \<and> set (mapKeys (variables (variableTracking t')))
          = set (mapKeys (variables (variableTracking t)))
      \<and> metadata t' = metadata t
      \<and> totalExecutions (rulesSummary t') = totalExecutions (rulesSummary t)
      \<and> uniqueRules (rulesSummary t') = uniqueRules (rulesSummary t)
      \<and> topRules (rulesSummary t') = topRules (rulesSummary t)
      \<and> totalRows (integrationOutputs t') = totalRows (integrationOutputs t)
      \<and> totalAssignments (variableTracking t') = totalAssignments (variableTracking t)
      \<and> uniqueVariables (variableTracking t') = uniqueVariables (variableTracking t)
      \<and> conditionTracking t' = conditionTracking t \<and> issues t' = issues t
      \<and> timeline t' = timeline t \<and> rulesExecuted t' = rulesExecuted t
      \<and> rollbackPoints t' = rollbackPoints t \<and> parseErrors t' = parseErrors t)"

definition distinctKeys :: "'v jsMap \<Rightarrow> bool" where
  "distinctKeys m = distinct (map fst m)"

definition mapsWellFormed :: "ParsedTrace \<Rightarrow> bool" where
  \<comment> \<open>the keys of every \<open>Map\<close> of the trace are distinct\<close>
  "mapsWellFormed t =
     (distinctKeys (features t)
      \<and> distinctKeys (rulesets (rulesSummary t))
      \<and> list_all (\<lambda>(k, r). distinctKeys (rules r)) (rulesets (rulesSummary t))
      \<and> distinctKeys (ruleTypeBreakdown (rulesSummary t))
      \<and> distinctKeys (templates (integrationOutputs t))
      \<and> list_all (\<lambda>(k, tp). list_all (\<lambda>r. distinctKeys (properties r)) (rows tp))
           (templates (integrationOutputs t))
      \<and> distinctKeys (variables (variableTracking t)))"


text \<open>The trace that the round trip returns: every map relisted in the order of
  \<open>Object.entries\<close>.\<close>

definition reorderRuleset :: "RulesetSummary \<Rightarrow> RulesetSummary" where
  "reorderRuleset r = r\<lparr>rules := objectEntries (rules r)\<rparr>"

definition reorderRow :: "IntegrationOutputRow \<Rightarrow> IntegrationOutputRow" where
  "reorderRow r = r\<lparr>properties := objectEntries (properties r)\<rparr>"

definition reorderTemplate :: "IntegrationTemplate \<Rightarrow> IntegrationTemplate" where
  "reorderTemplate tp = tp\<lparr>rows := map reorderRow (rows tp)\<rparr>"

definition reorderTrace :: "ParsedTrace \<Rightarrow> ParsedTrace" where
  "reorderTrace t =
     t\<lparr>features := objectEntries (features t),
       rulesSummary := (rulesSummary t)
         \<lparr>rulesets := map (\<lambda>(k, r). (k, reorderRuleset r)) (objectEntries (rulesets (rulesSummary t))),
          ruleTypeBreakdown := objectEntries (ruleTypeBreakdown (rulesSummary t))\<rparr>,
       integrationOutputs := (integrationOutputs t)
         \<lparr>templates := map (\<lambda>(k, tp). (k, reorderTemplate tp))
                          (objectEntries (templates (integrationOutputs t)))\<rparr>,
       variableTracking := (variableTracking t)
         \<lparr>variables := objectEntries (variables (variableTracking t))\<rparr>\<rparr>"

text \<open>
  The stored form as \<open>serializeTrace\<close> leaves it, the traces whose maps have no array-index
  key, and example traces with such keys.
\<close>

definition isObject :: "'v dict \<Rightarrow> bool" where
  "isObject d = (case d of IsMap m \<Rightarrow> False | IsObject ob \<Rightarrow> True)"

definition dictEntries :: "'v dict \<Rightarrow> (string \<times> 'v) list" where
  "dictEntries d = (case d of IsMap m \<Rightarrow> m | IsObject ob \<Rightarrow> ob)"

definition plainForm :: "StoredTrace \<Rightarrow> ParsedTrace \<Rightarrow> bool" where
  \<comment> \<open>every mapping field of the stored form, nested ones included, is a plain object, whose
      properties are the entries of the corresponding map of the trace\<close>
  "plainForm s t =
     (isObject (s_features s)
      \<and> dictEntries (s_features s) = features t
      \<and> isObject (s_rulesets (s_rulesSummary s))
      \<and> list_all (\<lambda>(k, r). isObject (srs_rules r)) (dictEntries (s_rulesets (s_rulesSummary s)))
      \<and> map (\<lambda>(k, r). (k, dictEntries (srs_rules r))) (dictEntries (s_rulesets (s_rulesSummary s)))
          = map (\<lambda>(k, r). (k, rules r)) (rulesets (rulesSummary t))
      \<and> isObject (s_ruleTypeBreakdown (s_rulesSummary s))
      \<and> dictEntries (s_ruleTypeBreakdown (s_rulesSummary s)) = ruleTypeBreakdown (rulesSummary t)
      \<and> isObject (s_templates (s_integrationOutputs s))
      \<and> list_all (\<lambda>(k, tp). list_all (\<lambda>r. isObject (s_properties r)) (s_rows tp))
           (dictEntries (s_templates (s_integrationOutputs s)))
      \<and> map (\<lambda>(k, tp). (k, map (\<lambda>r. dictEntries (s_properties r)) (s_rows tp)))
            (dictEntries (s_templates (s_integrationOutputs s)))
          = map (\<lambda>(k, tp). (k, map properties (rows tp))) (templates (integrationOutputs t))
      \<and> isObject (s_variables (s_variableTracking s))
      \<and> dictEntries (s_variables (s_variableTracking s)) = variables (variableTracking t))"

definition noIndexKeys :: "'v jsMap \<Rightarrow> bool" where
  "noIndexKeys m = list_all (\<lambda>(k, v). \<not> isArrayIndex k) m"

definition plainKeys :: "ParsedTrace \<Rightarrow> bool" where
  \<comment> \<open>no key of a map of the trace is an array index\<close>
  "plainKeys t =
     (noIndexKeys (features t)
      \<and> noIndexKeys (rulesets (rulesSummary t))
      \<and> list_all (\<lambda>(k, r). noIndexKeys (rules r)) (rulesets (rulesSummary t))
      \<and> noIndexKeys (ruleTypeBreakdown (rulesSummary t))
      \<and> noIndexKeys (templates (integrationOutputs t))
      \<and> list_all (\<lambda>(k, tp). list_all (\<lambda>r. noIndexKeys (properties r)) (rows tp))
           (templates (integrationOutputs t))
      \<and> noIndexKeys (variables (variableTracking t)))"

definition indexTrace :: "string list \<Rightarrow> ParsedTrace" where
  \<comment> \<open>a trace with one feature for each of the names, in this order\<close>
  "indexTrace ks = emptyTrace
     \<lparr>features := map (\<lambda>k. (k, \<lparr>fd_name = k, caption = k, fd_selectedValue = Some ''A'', options = [],
                                  optionListId = None, optionListGroup = None, fd_lineNumber = 1\<rparr>)) ks\<rparr>"

definition issueFeatures :: "RegressionResult \<Rightarrow> string list" where
  "issueFeatures r = map bi_featureName (rr_issues r)"

subsection \<open>The round trip keeps keys, structure and values\<close>

lemma mapSet_absent: "k \<notin> fst ` set m \<Longrightarrow> mapSet m k v = m @ [(k, v)]"
  by (induction m) auto

lemma mapFromPairs_distinct_acc:
  "distinct (map fst (m @ es)) \<Longrightarrow> foldl (\<lambda>m (k, v). mapSet m k v) m es = m @ es"
proof (induction es arbitrary: m)
  case Nil
  then show ?case by simp
next
  case (Cons e es)
  obtain k v where e: "e = (k, v)" by (cases e)
  have "mapSet m k v = m @ [(k, v)]"
    using Cons.prems by (intro mapSet_absent) (auto simp: e)
  moreover have "distinct (map fst ((m @ [(k, v)]) @ es))" using Cons.prems by (simp add: e)
  ultimately show ?case using Cons.IH[of "m @ [(k, v)]"] by (simp add: e)
qed

lemma mapFromPairs_distinct: "distinctKeys es \<Longrightarrow> mapFromPairs es = es"
  using mapFromPairs_distinct_acc[of "[]" es] by (simp add: mapFromPairs_def distinctKeys_def)

lemma set_objectEntries: "set (objectEntries ob) = set ob"
  by (auto simp: objectEntries_def)

lemma distinct_objectEntries:
  assumes "distinctKeys ob"
  shows "distinctKeys (objectEntries ob)"
proof -
  have a: "distinct (map fst (sort_key (\<lambda>(k, v). decimalValue k) (filter (\<lambda>(k, v). isArrayIndex k) ob)))"
    using assms by (simp add: distinct_map_sort distinct_map_filter distinctKeys_def)
  have b: "distinct (map fst (filter (\<lambda>(k, v). \<not> isArrayIndex k) ob))"
    using assms by (simp add: distinct_map_filter distinctKeys_def)
  have c: "fst ` set (sort_key (\<lambda>(k, v). decimalValue k) (filter (\<lambda>(k, v). isArrayIndex k) ob))
        \<inter> fst ` set (filter (\<lambda>(k, v). \<not> isArrayIndex k) ob) = {}"
    by auto
  from a b c show ?thesis by (simp add: objectEntries_def distinctKeys_def)
qed

lemma map_of_objectEntries: "distinctKeys ob \<Longrightarrow> map_of (objectEntries ob) = map_of ob"
  using distinct_objectEntries[of ob] set_objectEntries[of ob] map_of_inject_set[of "objectEntries ob" ob]
  by (simp add: distinctKeys_def)

lemma keys_objectEntries: "set (mapKeys (objectEntries ob)) = set (mapKeys ob)"
  by (simp add: mapKeys_def set_objectEntries)

lemma toMap_fromEntries:
  "distinctKeys m \<Longrightarrow> toMap (IsObject (objectFromEntries m)) = IsMap (objectEntries m)"
  by (simp add: toMap_def objectFromEntries_def mapFromPairs_distinct distinct_objectEntries)

lemma insort_map_snd:
  "insort_key (\<lambda>(k, v). g k) (k, f k v) (map (\<lambda>(k, v). (k, f k v)) xs) =
     map (\<lambda>(k, v). (k, f k v)) (insort_key (\<lambda>(k, v). g k) (k, v) xs)"
  by (induction xs) auto

lemma sort_map_snd:
  "sort_key (\<lambda>(k, v). g k) (map (\<lambda>(k, v). (k, f k v)) xs) =
     map (\<lambda>(k, v). (k, f k v)) (sort_key (\<lambda>(k, v). g k) xs)"
proof (induction xs)
  case Nil
  then show ?case by simp
next
  case (Cons x xs)
  obtain k v where x: "x = (k, v)" by (cases x)
  show ?case using Cons insort_map_snd[of g k f v "sort_key (\<lambda>(k, v). g k) xs"] by (simp add: x)
qed

lemma filter_map_snd:
  "filter (\<lambda>(k, v). P k) (map (\<lambda>(k, v). (k, f k v)) xs) =
     map (\<lambda>(k, v). (k, f k v)) (filter (\<lambda>(k, v). P k) xs)"
  by (induction xs) auto

lemma objectEntries_map:
  "objectEntries (map (\<lambda>(k, v). (k, f k v)) ob) = map (\<lambda>(k, v). (k, f k v)) (objectEntries ob)"
  by (simp add: objectEntries_def sort_map_snd filter_map_snd)

lemma distinctKeys_map: "distinctKeys (map (\<lambda>(k, v). (k, f k v)) m) = distinctKeys m"
  by (simp add: distinctKeys_def comp_def case_prod_beta)


lemma those_Some: "those (map (\<lambda>x. Some (f x)) xs) = Some (map f xs)"
  by (induction xs) simp_all

lemma rulesetOf_roundtrip:
  "distinctKeys (rules r) \<Longrightarrow> rulesetOf (reconstructRuleset (serializeRuleset r)) = Some (reorderRuleset r)"
  by (simp add: rulesetOf_def reconstructRuleset_def serializeRuleset_def toMap_fromEntries asMap_def
      reorderRuleset_def)

lemma rowOf_roundtrip:
  "distinctKeys (properties r) \<Longrightarrow>
     rowOf ((serializeRow r)\<lparr>s_properties := toMap (s_properties (serializeRow r))\<rparr>) = Some (reorderRow r)"
  by (simp add: rowOf_def serializeRow_def toMap_fromEntries asMap_def reorderRow_def)

lemma those_map_Some:
  "\<forall>x \<in> set xs. g x = Some (f x) \<Longrightarrow> those (map g xs) = Some (map f xs)"
  by (induction xs) simp_all

lemma templateOf_roundtrip:
  assumes "list_all (\<lambda>r. distinctKeys (properties r)) (rows tp)"
  shows "templateOf (reconstructTemplate (serializeTemplate tp)) = Some (reorderTemplate tp)"
proof -
  have "those (map rowOf (map (\<lambda>row. row\<lparr>s_properties := toMap (s_properties row)\<rparr>)
            (map serializeRow (rows tp)))) = Some (map reorderRow (rows tp))"
    unfolding map_map
    by (rule those_map_Some) (use assms in \<open>auto simp: list_all_iff rowOf_roundtrip\<close>)
  then show ?thesis
    by (simp add: templateOf_def reconstructTemplate_def serializeTemplate_def reorderTemplate_def)
qed

lemma entriesOpt_map_Some:
  "\<forall>(k, v) \<in> set xs. g v = Some (f v) \<Longrightarrow>
     entriesOpt (map (\<lambda>(k, v). (k, g v)) xs) = Some (map (\<lambda>(k, v). (k, f v)) xs)"
  by (induction xs) (auto simp: entriesOpt_def)

lemma nested_entries:
  assumes d: "distinctKeys m"
  shows "mapFromPairs (objectEntries (objectFromEntries (map (\<lambda>(k, v). (k, ser v)) m)))
      = map (\<lambda>(k, v). (k, ser v)) (objectEntries m)"
proof -
  have d1: "distinctKeys (map (\<lambda>(k, v). (k, ser v)) m)"
    using d distinctKeys_map[of "\<lambda>k v. ser v" m] by simp
  have "objectEntries (objectFromEntries (map (\<lambda>(k, v). (k, ser v)) m))
      = map (\<lambda>(k, v). (k, ser v)) (objectEntries m)"
    using objectEntries_map[of "\<lambda>k v. ser v" m] d1
    by (simp add: objectFromEntries_def mapFromPairs_distinct)
  moreover have "distinctKeys (map (\<lambda>(k, v). (k, ser v)) (objectEntries m))"
    using distinct_objectEntries[OF d] distinctKeys_map[of "\<lambda>k v. ser v" "objectEntries m"] by simp
  ultimately show ?thesis by (simp add: mapFromPairs_distinct)
qed

lemma roundTrip_reorder:
  assumes wf: "mapsWellFormed t"
  shows "roundTrip t = Some (reorderTrace t)"
proof -
  have f: "toMap (IsObject (objectFromEntries (features t))) = IsMap (objectEntries (features t))"
    using wf by (simp add: mapsWellFormed_def toMap_fromEntries)
  have b: "toMap (IsObject (objectFromEntries (ruleTypeBreakdown (rulesSummary t))))
      = IsMap (objectEntries (ruleTypeBreakdown (rulesSummary t)))"
    using wf by (simp add: mapsWellFormed_def toMap_fromEntries)
  have v: "toMap (IsObject (objectFromEntries (variables (variableTracking t))))
      = IsMap (objectEntries (variables (variableTracking t)))"
    using wf by (simp add: mapsWellFormed_def toMap_fromEntries)
  have r0: "mapFromPairs (objectEntries (objectFromEntries
        (map (\<lambda>(key, ruleset). (key, serializeRuleset ruleset)) (rulesets (rulesSummary t)))))
      = map (\<lambda>(k, r). (k, serializeRuleset r)) (objectEntries (rulesets (rulesSummary t)))"
    using wf by (simp add: mapsWellFormed_def nested_entries)
  have r1: "entriesOpt (map (\<lambda>(k, r). (k, rulesetOf r))
        (map (\<lambda>(k, r). (k, reconstructRuleset r))
          (map (\<lambda>(k, r). (k, serializeRuleset r)) (objectEntries (rulesets (rulesSummary t))))))
      = Some (map (\<lambda>(k, r). (k, reorderRuleset r)) (objectEntries (rulesets (rulesSummary t))))"
  proof -
    have "\<forall>(k, r) \<in> set (objectEntries (rulesets (rulesSummary t))).
        rulesetOf (reconstructRuleset (serializeRuleset r)) = Some (reorderRuleset r)"
      using wf by (auto simp: mapsWellFormed_def list_all_iff set_objectEntries rulesetOf_roundtrip)
    from entriesOpt_map_Some[OF this] show ?thesis
      by (simp add: comp_def split_def)
  qed
  have t0: "mapFromPairs (objectEntries (objectFromEntries
        (map (\<lambda>(key, template). (key, serializeTemplate template)) (templates (integrationOutputs t)))))
      = map (\<lambda>(k, tp). (k, serializeTemplate tp)) (objectEntries (templates (integrationOutputs t)))"
    using wf by (simp add: mapsWellFormed_def nested_entries)
  have t1: "entriesOpt (map (\<lambda>(k, tp). (k, templateOf tp))
        (map (\<lambda>(k, tp). (k, reconstructTemplate tp))
          (map (\<lambda>(k, tp). (k, serializeTemplate tp)) (objectEntries (templates (integrationOutputs t))))))
      = Some (map (\<lambda>(k, tp). (k, reorderTemplate tp)) (objectEntries (templates (integrationOutputs t))))"
  proof -
    have "\<forall>(k, tp) \<in> set (objectEntries (templates (integrationOutputs t))).
        templateOf (reconstructTemplate (serializeTemplate tp)) = Some (reorderTemplate tp)"
      using wf by (auto simp: mapsWellFormed_def list_all_iff set_objectEntries intro!: templateOf_roundtrip)
    from entriesOpt_map_Some[OF this] show ?thesis
      by (simp add: comp_def split_def)
  qed
  show ?thesis
    unfolding roundTrip_def reconstructTrace_def serializeTrace_def parsedOf_def reorderTrace_def Let_def
    by (simp add: f b v r0 r1 t0 t1 asMap_def del: map_map)
qed


lemma rulesetView_reorder: "distinctKeys (rules r) \<Longrightarrow> rulesetView (reorderRuleset r) = rulesetView r"
  by (simp add: rulesetView_def reorderRuleset_def map_of_objectEntries)

lemma rowView_reorder: "distinctKeys (properties r) \<Longrightarrow> rowView (reorderRow r) = rowView r"
  by (simp add: rowView_def reorderRow_def map_of_objectEntries)

lemma templateView_reorder:
  "list_all (\<lambda>r. distinctKeys (properties r)) (rows tp) \<Longrightarrow> templateView (reorderTemplate tp) = templateView tp"
  by (simp add: templateView_def reorderTemplate_def list_all_iff rowView_reorder)

lemma view_reordered:
  assumes d: "distinctKeys m" and e: "\<forall>(k, r) \<in> set m. view (reorder r) = view r"
  shows "map_of (map (\<lambda>(k, r). (k, view r)) (map (\<lambda>(k, r). (k, reorder r)) (objectEntries m)))
      = map_of (map (\<lambda>(k, r). (k, view r)) m)"
proof -
  have "map (\<lambda>(k, r). (k, view r)) (map (\<lambda>(k, r). (k, reorder r)) (objectEntries m))
      = map (\<lambda>(k, r). (k, view r)) (objectEntries m)"
    using e by (auto simp: set_objectEntries)
  also have "\<dots> = objectEntries (map (\<lambda>(k, r). (k, view r)) m)"
    using objectEntries_map[of "\<lambda>k r. view r" m] by simp
  finally show ?thesis
    using d distinctKeys_map[of "\<lambda>k r. view r" m] by (simp add: map_of_objectEntries)
qed

lemma keys_reordered:
  "set (mapKeys (map (\<lambda>(k, r). (k, reorder r)) (objectEntries m))) = set (mapKeys m)"
proof -
  have "map fst (map (\<lambda>(k, r). (k, reorder r)) (objectEntries m)) = map fst (objectEntries m)"
    by (simp add: comp_def split_def)
  then show ?thesis using keys_objectEntries[of m] by (simp add: mapKeys_def)
qed

lemma sameMappings_reorder:
  assumes wf: "mapsWellFormed t"
  shows "sameMappings t (reorderTrace t)"
proof -
  have r: "map_of (map (\<lambda>(k, r). (k, rulesetView r))
        (map (\<lambda>(k, r). (k, reorderRuleset r)) (objectEntries (rulesets (rulesSummary t)))))
      = map_of (map (\<lambda>(k, r). (k, rulesetView r)) (rulesets (rulesSummary t)))"
    using wf by (intro view_reordered) (auto simp: mapsWellFormed_def list_all_iff rulesetView_reorder)
  have tp: "map_of (map (\<lambda>(k, tp). (k, templateView tp))
        (map (\<lambda>(k, tp). (k, reorderTemplate tp)) (objectEntries (templates (integrationOutputs t)))))
      = map_of (map (\<lambda>(k, tp). (k, templateView tp)) (templates (integrationOutputs t)))"
    using wf by (intro view_reordered) (auto simp: mapsWellFormed_def list_all_iff intro!: templateView_reorder)
  show ?thesis
    using wf unfolding sameMappings_def reorderTrace_def
    by (simp add: r tp keys_reordered keys_objectEntries map_of_objectEntries mapsWellFormed_def del: map_map)
qed

lemma plainForm_serialize:
  assumes wf: "mapsWellFormed t"
  shows "plainForm (serializeTrace t) t"
proof -
  have f: "objectFromEntries (features t) = features t"
    "objectFromEntries (ruleTypeBreakdown (rulesSummary t)) = ruleTypeBreakdown (rulesSummary t)"
    "objectFromEntries (variables (variableTracking t)) = variables (variableTracking t)"
    using wf by (simp_all add: mapsWellFormed_def objectFromEntries_def mapFromPairs_distinct)
  have r: "objectFromEntries (map (\<lambda>(key, ruleset). (key, serializeRuleset ruleset)) (rulesets (rulesSummary t)))
      = map (\<lambda>(key, ruleset). (key, serializeRuleset ruleset)) (rulesets (rulesSummary t))"
    using wf distinctKeys_map[of "\<lambda>k r. serializeRuleset r" "rulesets (rulesSummary t)"]
    by (simp add: mapsWellFormed_def objectFromEntries_def mapFromPairs_distinct)
  have tp: "objectFromEntries (map (\<lambda>(key, template). (key, serializeTemplate template))
        (templates (integrationOutputs t)))
      = map (\<lambda>(key, template). (key, serializeTemplate template)) (templates (integrationOutputs t))"
    using wf distinctKeys_map[of "\<lambda>k tp. serializeTemplate tp" "templates (integrationOutputs t)"]
    by (simp add: mapsWellFormed_def objectFromEntries_def mapFromPairs_distinct)
  have rr: "dictEntries (srs_rules (serializeRuleset x)) = rules x"
    if "(k, x) \<in> set (rulesets (rulesSummary t))" for k x
    using wf that
    by (auto simp: mapsWellFormed_def list_all_iff serializeRuleset_def dictEntries_def
        objectFromEntries_def mapFromPairs_distinct)
  have pp: "dictEntries (s_properties (serializeRow x)) = properties x"
    if "(k, tp) \<in> set (templates (integrationOutputs t))" "x \<in> set (rows tp)" for k tp x
    using wf that
    by (auto simp: mapsWellFormed_def list_all_iff serializeRow_def dictEntries_def
        objectFromEntries_def mapFromPairs_distinct)
  have c1: "s_features (serializeTrace t) = IsObject (features t)"
    "s_ruleTypeBreakdown (s_rulesSummary (serializeTrace t)) = IsObject (ruleTypeBreakdown (rulesSummary t))"
    "s_variables (s_variableTracking (serializeTrace t)) = IsObject (variables (variableTracking t))"
    unfolding serializeTrace_def f by simp_all
  have c2: "s_rulesets (s_rulesSummary (serializeTrace t))
      = IsObject (map (\<lambda>(key, ruleset). (key, serializeRuleset ruleset)) (rulesets (rulesSummary t)))"
    unfolding serializeTrace_def r by simp
  have c3: "s_templates (s_integrationOutputs (serializeTrace t))
      = IsObject (map (\<lambda>(key, template). (key, serializeTemplate template)) (templates (integrationOutputs t)))"
    unfolding serializeTrace_def tp by simp
  have n1: "list_all (\<lambda>(k, r). isObject (srs_rules r))
      (map (\<lambda>(key, ruleset). (key, serializeRuleset ruleset)) (rulesets (rulesSummary t)))"
    by (auto simp: list_all_iff serializeRuleset_def isObject_def)
  have n2: "map (\<lambda>(k, r). (k, dictEntries (srs_rules r)))
        (map (\<lambda>(key, ruleset). (key, serializeRuleset ruleset)) (rulesets (rulesSummary t)))
      = map (\<lambda>(k, r). (k, rules r)) (rulesets (rulesSummary t))"
    using rr by auto
  have n3: "list_all (\<lambda>(k, tp). list_all (\<lambda>r. isObject (s_properties r)) (s_rows tp))
      (map (\<lambda>(key, template). (key, serializeTemplate template)) (templates (integrationOutputs t)))"
    by (auto simp: list_all_iff serializeTemplate_def serializeRow_def isObject_def)
  have n4: "map (\<lambda>(k, tp). (k, map (\<lambda>r. dictEntries (s_properties r)) (s_rows tp)))
        (map (\<lambda>(key, template). (key, serializeTemplate template)) (templates (integrationOutputs t)))
      = map (\<lambda>(k, tp). (k, map properties (rows tp))) (templates (integrationOutputs t))"
    using pp by (auto simp: serializeTemplate_def)
  show ?thesis
    unfolding plainForm_def c1 c2 c3
    using n1 n2 n3 n4 by (simp add: isObject_def dictEntries_def del: map_map)
qed

lemma objectEntries_noIndex: "noIndexKeys m \<Longrightarrow> objectEntries m = m"
proof -
  assume "noIndexKeys m"
  then have "filter (\<lambda>(k, v). isArrayIndex k) m = []" "filter (\<lambda>(k, v). \<not> isArrayIndex k) m = m"
    by (auto simp: noIndexKeys_def list_all_iff filter_empty_conv filter_id_conv)
  then show ?thesis by (simp add: objectEntries_def)
qed

lemma map_entries_id: "\<forall>(k, v) \<in> set m. f v = v \<Longrightarrow> map (\<lambda>(k, v). (k, f v)) m = m"
  by (induction m) auto

lemma reorderTrace_plainKeys:
  assumes "plainKeys t"
  shows "reorderTrace t = t"
proof -
  have r: "map (\<lambda>(k, r). (k, reorderRuleset r)) (rulesets (rulesSummary t)) = rulesets (rulesSummary t)"
    using assms
    by (intro map_entries_id) (auto simp: plainKeys_def list_all_iff reorderRuleset_def objectEntries_noIndex)
  have "reorderTemplate tp = tp" if "(k, tp) \<in> set (templates (integrationOutputs t))" for k tp
  proof -
    have "map reorderRow (rows tp) = rows tp"
      using assms that
      by (intro map_idI) (auto simp: plainKeys_def list_all_iff reorderRow_def objectEntries_noIndex)
    then show ?thesis by (simp add: reorderTemplate_def)
  qed
  then have tp: "map (\<lambda>(k, tp). (k, reorderTemplate tp)) (templates (integrationOutputs t))
      = templates (integrationOutputs t)"
    by (intro map_entries_id) auto
  show ?thesis
    using assms by (simp add: reorderTrace_def plainKeys_def objectEntries_noIndex r tp)
qed

text \<open>
  Claim C4, as the code has it. For every \<open>ParsedTrace\<close> (the keys of each of its maps
  distinct, as the keys of a \<open>Map\<close> are), \<open>serializeTrace\<close> gives a stored form in which
  every mapping field, nested ones included, is a plain object holding the entries of the
  map; \<open>reconstructTrace\<close> then gives a trace all of whose mapping fields hold a \<open>Map\<close>
  again, namely the original with every map relisted in the order of \<open>Object.entries\<close>:
  the keys that are array indices first, in ascending numeric order, then the other keys
  in their order. Every mapping field (features, rulesets and their rules, rule type
  breakdown, templates and the properties of their rows, variables) has the same key set
  and the same value at every key, and the other fields are unchanged. When no key of a
  map is an array index the trace returned is the original.
\<close>

theorem roundTrip_same_mappings:
  assumes "mapsWellFormed t"
  shows "plainForm (serializeTrace t) t
       \<and> roundTrip t = Some (reorderTrace t)
       \<and> sameMappings t (reorderTrace t)
       \<and> (plainKeys t \<longrightarrow> roundTrip t = Some t)"
  using plainForm_serialize[OF assms] roundTrip_reorder[OF assms] sameMappings_reorder[OF assms]
    reorderTrace_plainKeys[of t]
  by simp

text \<open>
  The theorem at a trace with the feature keys \<open>b\<close>, \<open>10\<close>, \<open>2\<close>, which come back as
  \<open>2\<close>, \<open>10\<close>, \<open>b\<close>, and at the example trace, which has no such key and comes back as
  it was.
\<close>

theorem roundTrip_same_mappings_witness:
  "mapsWellFormed (indexTrace [''b'', ''10'', ''2''])
   \<and> plainForm (serializeTrace (indexTrace [''b'', ''10'', ''2''])) (indexTrace [''b'', ''10'', ''2''])
   \<and> roundTrip (indexTrace [''b'', ''10'', ''2'']) = Some (reorderTrace (indexTrace [''b'', ''10'', ''2'']))
   \<and> reorderTrace (indexTrace [''b'', ''10'', ''2'']) = indexTrace [''2'', ''10'', ''b'']
   \<and> sameMappings (indexTrace [''b'', ''10'', ''2'']) (reorderTrace (indexTrace [''b'', ''10'', ''2'']))
   \<and> mapsWellFormed sampleTrace \<and> plainKeys sampleTrace \<and> roundTrip sampleTrace = Some sampleTrace"
proof -
  have h1: "mapsWellFormed (indexTrace [''b'', ''10'', ''2''])"
    by code_simp
  have h2: "mapsWellFormed sampleTrace"
    by code_simp
  have h3: "plainKeys sampleTrace"
    by code_simp
  have o: "reorderTrace (indexTrace [''b'', ''10'', ''2'']) = indexTrace [''2'', ''10'', ''b'']"
    by code_simp
  note a = roundTrip_same_mappings[OF h1]
  note b = roundTrip_same_mappings[OF h2, THEN conjunct2, THEN conjunct2, THEN conjunct2, THEN mp, OF h3]
  show ?thesis
    by (intro conjI) (rule h1 h2 h3 o b a[THEN conjunct1] a[THEN conjunct2, THEN conjunct1]
        a[THEN conjunct2, THEN conjunct2, THEN conjunct1])+
qed

text \<open>
  Claim C4 as stated fails: the trace returned is not behaviourally identical to the
  original when keys that are array indices are out of their numeric order. The trace
  with the features \<open>10\<close> and \<open>2\<close> comes back with the features \<open>2\<close> and \<open>10\<close>, and
  \<open>compareBehavior\<close> against a trace without features reports the two missing features
  in the other order.
\<close>

theorem roundTrip_order_counterexample:
  "mapsWellFormed (indexTrace [''10'', ''2''])
   \<and> roundTrip (indexTrace [''10'', ''2'']) = Some (indexTrace [''2'', ''10''])
   \<and> mapKeys (features (indexTrace [''10'', ''2''])) = [''10'', ''2'']
   \<and> mapKeys (features (indexTrace [''2'', ''10''])) = [''2'', ''10'']
   \<and> issueFeatures (compareBehavior (indexTrace [''10'', ''2'']) emptyTrace
         \<lparr>info_id = ''b1'', info_name = ''base'', info_matchScore = 0\<rparr>) = [''10'', ''2'']
   \<and> issueFeatures (compareBehavior (indexTrace [''2'', ''10'']) emptyTrace
         \<lparr>info_id = ''b1'', info_name = ''base'', info_matchScore = 0\<rparr>) = [''2'', ''10'']"
  by (intro conjI; code_simp)

section \<open>Expression parser\<close>

text \<open>
  The expression parser of \<open>part_000\<close>: a tokenizer and a recursive-descent
  parser behind the entry point \<open>parseExpression\<close>. The parser object holds the
  token array and a cursor; here a parser function takes the tokens from the
  cursor on and returns the tokens left, so that \<open>this.pos++\<close> is \<open>drop 1\<close>.
  Each \<open>throw new Error(m)\<close> is the value \<open>Inl m\<close>, handed on by every caller up
  to the \<open>catch\<close> of \<open>parseExpression\<close>. A \<open>while\<close> loop is the function named
  after it (\<open>orLoop\<close> is the loop of \<open>parseOr\<close>). The parser functions are those of an
  engine whose call stack is never exhausted; the entry point takes the engine as a
  parameter.
\<close>

subsection \<open>Syntax trees and tokens\<close>

datatype ExpressionNodeType = NFunction | NOperator | NVariable | NLiteral | NArray | NUnary

datatype ExpressionNode =
  Node (ntype: ExpressionNodeType) (nvalue: string) (children: "ExpressionNode list option") (raw: string)

record ParsedExpression =
  root :: "ExpressionNode option"
  original :: string
  isValid :: bool
  error :: "string option"

datatype TokenType = STRING | NUMBER | BOOLEAN | NULL | IDENTIFIER | OPERATOR | LPAREN | RPAREN
  | LBRACE | RBRACE | LBRACKET | RBRACKET | COMMA | DOT | EOF

record Token =
  ttype :: TokenType
  tvalue :: string
  position :: nat

definition mkToken :: "TokenType \<Rightarrow> string \<Rightarrow> nat \<Rightarrow> Token" where
  "mkToken ty v p = \<lparr>ttype = ty, tvalue = v, position = p\<rparr>"

definition isNumberChar :: "char \<Rightarrow> bool" where
  "isNumberChar c = (isDigit c \<or> c = CHR ''.'')"

definition isIdentStart :: "char \<Rightarrow> bool" where
  "isIdentStart c = (isLower c \<or> isUpper c \<or> c = CHR ''_'')"

definition wordToken :: "string \<Rightarrow> nat \<Rightarrow> Token" where
  "wordToken v p =
     (let upper = toUpperCase v
      in if upper = ''TRUE'' \<or> upper = ''FALSE'' then mkToken BOOLEAN upper p
         else if upper = ''NULL'' then mkToken NULL ''null'' p
         else if upper \<in> set [''AND'', ''OR'', ''IN'', ''NOTIN'', ''NOT''] then mkToken OPERATOR upper p
         else mkToken IDENTIFIER v p)"

function tokenizeFrom :: "nat \<Rightarrow> string \<Rightarrow> Token list" where
  "tokenizeFrom pos [] = [mkToken EOF [] pos]"
| "tokenizeFrom pos (c # cs) =
     (if isSpace c then tokenizeFrom (pos + 1) cs
      else if c = CHR 0x22 \<or> c = CHR 0x27 then
        mkToken STRING (takeWhile (\<lambda>x. x \<noteq> c) cs) pos
          # tokenizeFrom (pos + length (takeWhile (\<lambda>x. x \<noteq> c) cs) + 2)
              (drop 1 (dropWhile (\<lambda>x. x \<noteq> c) cs))
      else if isDigit c \<or> (c = CHR ''-'' \<and> (case cs of [] \<Rightarrow> False | d # _ \<Rightarrow> isDigit d)) then
        (if c = CHR ''-''
         then mkToken NUMBER (CHR ''-'' # takeWhile isNumberChar cs) pos
                # tokenizeFrom (pos + 1 + length (takeWhile isNumberChar cs)) (dropWhile isNumberChar cs)
         else mkToken NUMBER (takeWhile isNumberChar (c # cs)) pos
                # tokenizeFrom (pos + length (takeWhile isNumberChar (c # cs)))
                    (dropWhile isNumberChar cs))
      else if take 2 (c # cs) \<in> set [''!='', ''<>'', ''<='', ''>=''] then
        mkToken OPERATOR (take 2 (c # cs)) pos # tokenizeFrom (pos + 2) (drop 1 cs)
      else if c \<in> set ''=<>+-*/!'' then mkToken OPERATOR [c] pos # tokenizeFrom (pos + 1) cs
      else if c = CHR ''('' then mkToken LPAREN ''('' pos # tokenizeFrom (pos + 1) cs
      else if c = CHR '')'' then mkToken RPAREN '')'' pos # tokenizeFrom (pos + 1) cs
      else if c = CHR ''{'' then mkToken LBRACE ''{'' pos # tokenizeFrom (pos + 1) cs
      else if c = CHR ''}'' then mkToken RBRACE ''}'' pos # tokenizeFrom (pos + 1) cs
      else if c = CHR ''['' then mkToken LBRACKET ''['' pos # tokenizeFrom (pos + 1) cs
      else if c = CHR '']'' then mkToken RBRACKET '']'' pos # tokenizeFrom (pos + 1) cs
      else if c = CHR '','' then mkToken COMMA '','' pos # tokenizeFrom (pos + 1) cs
      else if c = CHR ''.'' then mkToken DOT ''.'' pos # tokenizeFrom (pos + 1) cs
      else if isIdentStart c then
        wordToken (takeWhile isWord (c # cs)) pos
          # tokenizeFrom (pos + length (takeWhile isWord (c # cs))) (dropWhile isWord cs)
      else tokenizeFrom (pos + 1) cs)"
  by pat_completeness auto
termination
  by (relation "measure (\<lambda>(pos, s). length s)")
     (auto simp: le_imp_less_Suc length_dropWhile_le intro: le_less_trans[OF diff_le_self])

definition tokenize :: "string \<Rightarrow> Token list" where
  "tokenize expr =
     (if startsWith expr ''='' then tokenizeFrom 1 (drop 1 expr) else tokenizeFrom 0 expr)"

subsection \<open>Recursive descent\<close>

type_synonym 'a parse = "string + ('a \<times> Token list)"

definition current :: "Token list \<Rightarrow> Token" where
  \<comment> \<open>\<open>this.tokens[this.pos] || EOF\<close>, on the tokens from \<open>pos\<close> on\<close>
  "current ts = (case ts of [] \<Rightarrow> mkToken EOF [] 0 | t # _ \<Rightarrow> t)"

definition advance :: "Token list \<Rightarrow> Token list" where
  \<comment> \<open>\<open>this.pos++\<close>\<close>
  "advance ts = drop 1 ts"

definition matchTok :: "TokenType \<Rightarrow> string option \<Rightarrow> Token list \<Rightarrow> bool" where
  "matchTok ty v ts =
     (ttype (current ts) = ty
      \<and> (case v of None \<Rightarrow> True | Some x \<Rightarrow> toUpperCase (tvalue (current ts)) = toUpperCase x))"

definition typeName :: "TokenType \<Rightarrow> string" where
  "typeName ty =
     (case ty of STRING \<Rightarrow> ''STRING'' | NUMBER \<Rightarrow> ''NUMBER'' | BOOLEAN \<Rightarrow> ''BOOLEAN''
      | NULL \<Rightarrow> ''NULL'' | IDENTIFIER \<Rightarrow> ''IDENTIFIER'' | OPERATOR \<Rightarrow> ''OPERATOR''
      | LPAREN \<Rightarrow> ''LPAREN'' | RPAREN \<Rightarrow> ''RPAREN'' | LBRACE \<Rightarrow> ''LBRACE''
      | RBRACE \<Rightarrow> ''RBRACE'' | LBRACKET \<Rightarrow> ''LBRACKET'' | RBRACKET \<Rightarrow> ''RBRACKET''
      | COMMA \<Rightarrow> ''COMMA'' | DOT \<Rightarrow> ''DOT'' | EOF \<Rightarrow> ''EOF'')"

definition sq :: "string \<Rightarrow> string" where
  "sq s = [CHR 0x27] @ s @ [CHR 0x27]"

definition expect :: "TokenType \<Rightarrow> Token list \<Rightarrow> Token parse" where
  \<comment> \<open>every call of the source passes a type and no value\<close>
  "expect ty ts =
     (if matchTok ty None ts then Inr (current ts, advance ts)
      else Inl (''Expected '' @ typeName ty @ '' but got '' @ typeName (ttype (current ts))
                @ '' '' @ sq (tvalue (current ts))))"

definition binaryNode :: "string \<Rightarrow> string \<Rightarrow> ExpressionNode \<Rightarrow> ExpressionNode \<Rightarrow> ExpressionNode" where
  \<comment> \<open>an operator node with value \<open>v\<close>, whose raw text joins the operands with \<open>shown\<close>\<close>
  "binaryNode v shown left right =
     Node NOperator v (Some [left, right]) (raw left @ '' '' @ shown @ '' '' @ raw right)"

definition isCompOp :: "Token \<Rightarrow> bool" where
  "isCompOp t = (ttype t = OPERATOR \<and> tvalue t \<in> set [''='', ''!='', ''<>'', ''<'', ''>'', ''<='', ''>=''])"

definition isAddOp :: "Token \<Rightarrow> bool" where
  "isAddOp t = (ttype t = OPERATOR \<and> tvalue t \<in> set [''+'', ''-''])"

definition isMulOp :: "Token \<Rightarrow> bool" where
  "isMulOp t = (ttype t = OPERATOR \<and> tvalue t \<in> set [''*'', ''/''])"

function parseOr :: "Token list \<Rightarrow> ExpressionNode parse"
  and orLoop :: "ExpressionNode \<Rightarrow> Token list \<Rightarrow> ExpressionNode parse"
  and parseAnd :: "Token list \<Rightarrow> ExpressionNode parse"
  and andLoop :: "ExpressionNode \<Rightarrow> Token list \<Rightarrow> ExpressionNode parse"
  and parseNot :: "Token list \<Rightarrow> ExpressionNode parse"
  and parseComparison :: "Token list \<Rightarrow> ExpressionNode parse"
  and compLoop :: "ExpressionNode \<Rightarrow> Token list \<Rightarrow> ExpressionNode parse"
  and parseInNotIn :: "Token list \<Rightarrow> ExpressionNode parse"
  and inLoop :: "ExpressionNode \<Rightarrow> Token list \<Rightarrow> ExpressionNode parse"
  and parseAddSub :: "Token list \<Rightarrow> ExpressionNode parse"
  and addLoop :: "ExpressionNode \<Rightarrow> Token list \<Rightarrow> ExpressionNode parse"
  and parseMulDiv :: "Token list \<Rightarrow> ExpressionNode parse"
  and mulLoop :: "ExpressionNode \<Rightarrow> Token list \<Rightarrow> ExpressionNode parse"
  and parsePrimary :: "Token list \<Rightarrow> ExpressionNode parse"
  and parseIdentifierOrFunction :: "Token list \<Rightarrow> ExpressionNode parse"
  and argsLoop :: "ExpressionNode list \<Rightarrow> Token list \<Rightarrow> (ExpressionNode list) parse"
  and varLoop :: "string \<Rightarrow> string \<Rightarrow> Token list \<Rightarrow> (string \<times> string) parse"
  and parseArray :: "Token list \<Rightarrow> ExpressionNode parse"
  and elementsLoop :: "ExpressionNode list \<Rightarrow> Token list \<Rightarrow> (ExpressionNode list) parse"
where
  "parseOr ts =
     (case parseAnd ts of Inl e \<Rightarrow> Inl e | Inr (left, ts1) \<Rightarrow> orLoop left ts1)"
| "orLoop left ts =
     (if matchTok OPERATOR (Some ''OR'') ts then
        (case parseAnd (advance ts) of
           Inl e \<Rightarrow> Inl e
         | Inr (right, ts1) \<Rightarrow> orLoop (binaryNode ''OR'' ''OR'' left right) ts1)
      else Inr (left, ts))"
| "parseAnd ts =
     (case parseNot ts of Inl e \<Rightarrow> Inl e | Inr (left, ts1) \<Rightarrow> andLoop left ts1)"
| "andLoop left ts =
     (if matchTok OPERATOR (Some ''AND'') ts then
        (case parseNot (advance ts) of
           Inl e \<Rightarrow> Inl e
         | Inr (right, ts1) \<Rightarrow> andLoop (binaryNode ''AND'' ''AND'' left right) ts1)
      else Inr (left, ts))"
| "parseNot ts =
     (if matchTok OPERATOR (Some ''NOT'') ts \<or> matchTok OPERATOR (Some ''!'') ts then
        (case parseNot (advance ts) of
           Inl e \<Rightarrow> Inl e
         | Inr (operand, ts1) \<Rightarrow> Inr (Node NUnary ''NOT'' (Some [operand]) (''NOT '' @ raw operand), ts1))
      else parseComparison ts)"
| "parseComparison ts =
     (case parseInNotIn ts of Inl e \<Rightarrow> Inl e | Inr (left, ts1) \<Rightarrow> compLoop left ts1)"
| "compLoop left ts =
     (if isCompOp (current ts) then
        (case parseInNotIn (advance ts) of
           Inl e \<Rightarrow> Inl e
         | Inr (right, ts1) \<Rightarrow>
             compLoop (binaryNode (if tvalue (current ts) = ''<>'' then ''!='' else tvalue (current ts))
                         (tvalue (current ts)) left right) ts1)
      else Inr (left, ts))"
| "parseInNotIn ts =
     (case parseAddSub ts of Inl e \<Rightarrow> Inl e | Inr (left, ts1) \<Rightarrow> inLoop left ts1)"
| "inLoop left ts =
     (if matchTok OPERATOR (Some ''IN'') ts \<or> matchTok OPERATOR (Some ''NOTIN'') ts then
        (case parseAddSub (advance ts) of
           Inl e \<Rightarrow> Inl e
         | Inr (right, ts1) \<Rightarrow>
             inLoop (binaryNode (toUpperCase (tvalue (current ts))) (toUpperCase (tvalue (current ts)))
                       left right) ts1)
      else Inr (left, ts))"
| "parseAddSub ts =
     (case parseMulDiv ts of Inl e \<Rightarrow> Inl e | Inr (left, ts1) \<Rightarrow> addLoop left ts1)"
| "addLoop left ts =
     (if isAddOp (current ts) then
        (case parseMulDiv (advance ts) of
           Inl e \<Rightarrow> Inl e
         | Inr (right, ts1) \<Rightarrow>
             addLoop (binaryNode (tvalue (current ts)) (tvalue (current ts)) left right) ts1)
      else Inr (left, ts))"
| "parseMulDiv ts =
     (case parsePrimary ts of Inl e \<Rightarrow> Inl e | Inr (left, ts1) \<Rightarrow> mulLoop left ts1)"
| "mulLoop left ts =
     (if isMulOp (current ts) then
        (case parsePrimary (advance ts) of
           Inl e \<Rightarrow> Inl e
         | Inr (right, ts1) \<Rightarrow>
             mulLoop (binaryNode (tvalue (current ts)) (tvalue (current ts)) left right) ts1)
      else Inr (left, ts))"
| "parsePrimary ts =
     (if ttype (current ts) = LPAREN then
        (case parseOr (advance ts) of
           Inl e \<Rightarrow> Inl e
         | Inr (expr, ts1) \<Rightarrow>
             (case expect RPAREN ts1 of Inl e \<Rightarrow> Inl e | Inr (t, ts2) \<Rightarrow> Inr (expr, ts2)))
      else if ttype (current ts) = LBRACE then parseArray ts
      else if ttype (current ts) = STRING then
        Inr (Node NLiteral (quoted (tvalue (current ts))) None (quoted (tvalue (current ts))), advance ts)
      else if ttype (current ts) = NUMBER then
        Inr (Node NLiteral (tvalue (current ts)) None (tvalue (current ts)), advance ts)
      else if ttype (current ts) = BOOLEAN then
        Inr (Node NLiteral (tvalue (current ts)) None (tvalue (current ts)), advance ts)
      else if ttype (current ts) = NULL then
        Inr (Node NLiteral ''null'' None ''null'', advance ts)
      else if ttype (current ts) = IDENTIFIER then parseIdentifierOrFunction ts
      else if ttype (current ts) = OPERATOR \<and> tvalue (current ts) = ''-'' then
        (case parsePrimary (advance ts) of
           Inl e \<Rightarrow> Inl e
         | Inr (operand, ts1) \<Rightarrow> Inr (Node NUnary ''-'' (Some [operand]) (''-'' @ raw operand), ts1))
      else Inl (''Unexpected token: '' @ typeName (ttype (current ts)) @ '' '' @ sq (tvalue (current ts))))"
| "parseIdentifierOrFunction ts =
     (if matchTok LPAREN None (advance ts) then
        (case (if \<not> matchTok RPAREN None (advance (advance ts)) then
                 (case parseOr (advance (advance ts)) of
                    Inl e \<Rightarrow> Inl e
                  | Inr (a, ts1) \<Rightarrow> argsLoop [a] ts1)
               else Inr ([], advance (advance ts))) of
           Inl e \<Rightarrow> Inl e
         | Inr (args, ts2) \<Rightarrow>
             (case expect RPAREN ts2 of
                Inl e \<Rightarrow> Inl e
              | Inr (t, ts3) \<Rightarrow>
                  Inr (Node NFunction (toUpperCase (tvalue (current ts))) (Some args)
                         (tvalue (current ts) @ ''('' @ joinWith '', '' (map raw args) @ '')''), ts3)))
      else
        (case varLoop (tvalue (current ts)) (tvalue (current ts)) (advance ts) of
           Inl e \<Rightarrow> Inl e
         | Inr ((name, rawText), ts1) \<Rightarrow> Inr (Node NVariable name None rawText, ts1)))"
| "argsLoop args ts =
     (if matchTok COMMA None ts then
        (case parseOr (advance ts) of
           Inl e \<Rightarrow> Inl e
         | Inr (a, ts1) \<Rightarrow> argsLoop (args @ [a]) ts1)
      else Inr (args, ts))"
| "varLoop name rawText ts =
     (if matchTok DOT None ts then
        (if matchTok IDENTIFIER None (advance ts)
         then varLoop (name @ ''.'' @ tvalue (current (advance ts)))
                (rawText @ ''.'' @ tvalue (current (advance ts))) (advance (advance ts))
         else varLoop name rawText (advance ts))
      else if matchTok LBRACKET None ts then
        (case (if matchTok STRING None (advance ts) then
                 Inr ((name @ ''['' @ quoted (tvalue (current (advance ts))) @ '']'',
                       rawText @ ''['' @ quoted (tvalue (current (advance ts))) @ '']''),
                      advance (advance ts))
               else if matchTok IDENTIFIER None (advance ts) \<or> matchTok NUMBER None (advance ts) then
                 Inr ((name @ ''['' @ tvalue (current (advance ts)) @ '']'',
                       rawText @ ''['' @ tvalue (current (advance ts)) @ '']''),
                      advance (advance ts))
               else
                 (case parseOr (advance ts) of
                    Inl e \<Rightarrow> Inl e
                  | Inr (expr, ts1) \<Rightarrow>
                      Inr ((name @ ''['' @ raw expr @ '']'', rawText @ ''['' @ raw expr @ '']''), ts1))) of
           Inl e \<Rightarrow> Inl e
         | Inr ((name', rawText'), ts2) \<Rightarrow>
             (case expect RBRACKET ts2 of
                Inl e \<Rightarrow> Inl e
              | Inr (t, ts3) \<Rightarrow> varLoop name' rawText' ts3))
      else Inr ((name, rawText), ts))"
| "parseArray ts =
     (case expect LBRACE ts of
        Inl e \<Rightarrow> Inl e
      | Inr (t, ts1) \<Rightarrow>
          (case (if \<not> matchTok RBRACE None ts1 then
                   (case parseOr ts1 of
                      Inl e \<Rightarrow> Inl e
                    | Inr (a, ts2) \<Rightarrow> elementsLoop [a] ts2)
                 else Inr ([], ts1)) of
             Inl e \<Rightarrow> Inl e
           | Inr (elements, ts3) \<Rightarrow>
               (case expect RBRACE ts3 of
                  Inl e \<Rightarrow> Inl e
                | Inr (t', ts4) \<Rightarrow>
                    Inr (Node NArray (''{'' @ joinWith '', '' (map raw elements) @ ''}'') (Some elements)
                           (''{'' @ joinWith '', '' (map raw elements) @ ''}''), ts4))))"
| "elementsLoop elements ts =
     (if matchTok COMMA None ts then
        (if \<not> matchTok RBRACE None (advance ts) then
           (case parseOr (advance ts) of
              Inl e \<Rightarrow> Inl e
            | Inr (a, ts1) \<Rightarrow> elementsLoop (elements @ [a]) ts1)
         else elementsLoop elements (advance ts))
      else Inr (elements, ts))"
  by pat_completeness auto

subsection \<open>The parser returns\<close>

text \<open>
  A call from the tokens \<open>ts\<close> either raises one of the two errors of the parser
  or leaves at most the tokens it was given. This is proved on the domain of the
  functions first, and gives the measure under which they terminate: the number
  of tokens left, then the place of the function in the chain of precedences.
\<close>

lemma startsWith_Nil [simp]: "startsWith s []"
  by (simp add: startsWith_def)

lemma startsWith_Cons [simp]: "startsWith (c # s) (d # l) = (c = d \<and> startsWith s l)"
  by (auto simp: startsWith_def)

definition outcome :: "Token list \<Rightarrow> 'a parse \<Rightarrow> bool" where
  "outcome ts p =
     (case p of
        Inl e \<Rightarrow> startsWith e ''Unexpected token: '' \<or> startsWith e ''Expected ''
      | Inr (res, r) \<Rightarrow> length r \<le> length ts)"

lemma outcome_Inl [simp]:
  "outcome ts (Inl e) = (startsWith e ''Unexpected token: '' \<or> startsWith e ''Expected '')"
  by (simp add: outcome_def)

lemma outcome_Inr [simp]: "outcome ts (Inr (x, r)) = (length r \<le> length ts)"
  by (simp add: outcome_def)

lemma advance_le: "length (advance ts) \<le> length ts"
  by (simp add: advance_def)

lemma advance_less: "ttype (current ts) \<noteq> EOF \<Longrightarrow> length (advance ts) < length ts"
  by (cases ts) (simp_all add: advance_def current_def mkToken_def)

lemma outcome_trans: "outcome ts' p \<Longrightarrow> length ts' \<le> length ts \<Longrightarrow> outcome ts p"
  by (auto simp: outcome_def split: sum.splits)

lemma outcome_advance: "outcome (advance ts) p \<Longrightarrow> outcome ts p"
  by (rule outcome_trans[OF _ advance_le])

lemma outcome_bind:
  assumes "outcome ts p" and "\<And>b x y. p = Inr b \<Longrightarrow> (x, y) = b \<Longrightarrow> outcome y (f x y)"
  shows "outcome ts (case p of Inl e \<Rightarrow> Inl e | Inr (x, y) \<Rightarrow> f x y)"
proof (cases p)
  case (Inl e)
  then show ?thesis using assms(1) by simp
next
  case (Inr b)
  obtain x y where b: "b = (x, y)" by (cases b)
  from assms(1) have "length y \<le> length ts" by (simp add: Inr b)
  moreover from assms(2)[OF Inr b[symmetric]] have "outcome y (f x y)" .
  ultimately show ?thesis by (simp add: Inr b outcome_trans)
qed

lemma expect_le: "expect ty ts = Inr (t, r) \<Longrightarrow> length r \<le> length ts"
  by (auto simp: expect_def advance_def split: if_splits)

lemma outcome_expect: "outcome ts (expect ty ts)"
  by (auto simp: expect_def advance_def)

lemma outcome_map:
  assumes "outcome ts p" and "\<And>x y. outcome y (f x y)"
  shows "outcome ts (case p of Inl e \<Rightarrow> Inl e | Inr (x, y) \<Rightarrow> f x y)"
  by (rule outcome_bind[OF assms(1)]) (rule assms(2))

abbreviation "parser_dom \<equiv> parseOr_orLoop_parseAnd_andLoop_parseNot_parseComparison_compLoop_parseInNotIn_inLoop_parseAddSub_addLoop_parseMulDiv_mulLoop_parsePrimary_parseIdentifierOrFunction_argsLoop_varLoop_parseArray_elementsLoop_dom"

lemma parseOr_outcome: "parser_dom (Inl (Inl (Inl (Inl ts)))) \<Longrightarrow> outcome ts (parseOr ts)"
  and orLoop_outcome: "parser_dom (Inl (Inl (Inl (Inr (left, ts))))) \<Longrightarrow> outcome ts (orLoop left ts)"
  and parseAnd_outcome: "parser_dom (Inl (Inl (Inr (Inl ts)))) \<Longrightarrow> outcome ts (parseAnd ts)"
  and andLoop_outcome: "parser_dom (Inl (Inl (Inr (Inr (left, ts))))) \<Longrightarrow> outcome ts (andLoop left ts)"
  and parseNot_outcome: "parser_dom (Inl (Inr (Inl (Inl ts)))) \<Longrightarrow> outcome ts (parseNot ts)"
  and parseComparison_outcome: "parser_dom (Inl (Inr (Inl (Inr ts)))) \<Longrightarrow> outcome ts (parseComparison ts)"
  and compLoop_outcome: "parser_dom (Inl (Inr (Inr (Inl (left, ts))))) \<Longrightarrow> outcome ts (compLoop left ts)"
  and parseInNotIn_outcome: "parser_dom (Inl (Inr (Inr (Inr (Inl ts))))) \<Longrightarrow> outcome ts (parseInNotIn ts)"
  and inLoop_outcome: "parser_dom (Inl (Inr (Inr (Inr (Inr (left, ts)))))) \<Longrightarrow> outcome ts (inLoop left ts)"
  and parseAddSub_outcome: "parser_dom (Inr (Inl (Inl (Inl ts)))) \<Longrightarrow> outcome ts (parseAddSub ts)"
  and addLoop_outcome: "parser_dom (Inr (Inl (Inl (Inr (left, ts))))) \<Longrightarrow> outcome ts (addLoop left ts)"
  and parseMulDiv_outcome: "parser_dom (Inr (Inl (Inr (Inl ts)))) \<Longrightarrow> outcome ts (parseMulDiv ts)"
  and mulLoop_outcome: "parser_dom (Inr (Inl (Inr (Inr (Inl (left, ts)))))) \<Longrightarrow> outcome ts (mulLoop left ts)"
  and parsePrimary_outcome: "parser_dom (Inr (Inl (Inr (Inr (Inr ts))))) \<Longrightarrow> outcome ts (parsePrimary ts)"
  and parseIdentifierOrFunction_outcome: "parser_dom (Inr (Inr (Inl (Inl ts)))) \<Longrightarrow> outcome ts (parseIdentifierOrFunction ts)"
  and argsLoop_outcome: "parser_dom (Inr (Inr (Inl (Inr (args, ts))))) \<Longrightarrow> outcome ts (argsLoop args ts)"
  and varLoop_outcome: "parser_dom (Inr (Inr (Inr (Inl (name, rawText, ts))))) \<Longrightarrow> outcome ts (varLoop name rawText ts)"
  and parseArray_outcome: "parser_dom (Inr (Inr (Inr (Inr (Inl ts))))) \<Longrightarrow> outcome ts (parseArray ts)"
  and elementsLoop_outcome: "parser_dom (Inr (Inr (Inr (Inr (Inr (elements, ts)))))) \<Longrightarrow> outcome ts (elementsLoop elements ts)"
proof (induct rule: parseOr_orLoop_parseAnd_andLoop_parseNot_parseComparison_compLoop_parseInNotIn_inLoop_parseAddSub_addLoop_parseMulDiv_mulLoop_parsePrimary_parseIdentifierOrFunction_argsLoop_varLoop_parseArray_elementsLoop.pinduct)
  case (1 ts)
  show ?case
    unfolding parseOr.psimps[OF "1.hyps"(1)]
    by (rule outcome_bind[OF "1.hyps"(2) "1.hyps"(3)])
next
  case (2 left ts)
  show ?case
  proof (cases "matchTok OPERATOR (Some ''OR'') ts")
    case True
    show ?thesis
      unfolding orLoop.psimps[OF "2.hyps"(1)] if_P[OF True]
      by (rule outcome_advance, rule outcome_bind[OF "2.hyps"(2)[OF True] "2.hyps"(3)[OF True]])
  next
    case False
    show ?thesis
      unfolding orLoop.psimps[OF "2.hyps"(1)] if_not_P[OF False] by simp
  qed
next
  case (3 ts)
  show ?case
    unfolding parseAnd.psimps[OF "3.hyps"(1)]
    by (rule outcome_bind[OF "3.hyps"(2) "3.hyps"(3)])
next
  case (4 left ts)
  show ?case
  proof (cases "matchTok OPERATOR (Some ''AND'') ts")
    case True
    show ?thesis
      unfolding andLoop.psimps[OF "4.hyps"(1)] if_P[OF True]
      by (rule outcome_advance, rule outcome_bind[OF "4.hyps"(2)[OF True] "4.hyps"(3)[OF True]])
  next
    case False
    show ?thesis
      unfolding andLoop.psimps[OF "4.hyps"(1)] if_not_P[OF False] by simp
  qed
next
  case (5 ts)
  show ?case
  proof (cases "matchTok OPERATOR (Some ''NOT'') ts \<or> matchTok OPERATOR (Some ''!'') ts")
    case True
    show ?thesis
      unfolding parseNot.psimps[OF "5.hyps"(1)] if_P[OF True]
      by (rule outcome_advance, rule outcome_bind[OF "5.hyps"(2)[OF True]]) simp
  next
    case False
    show ?thesis
      unfolding parseNot.psimps[OF "5.hyps"(1)] if_not_P[OF False] by (rule "5.hyps"(3)[OF False])
  qed
next
  case (6 ts)
  show ?case
    unfolding parseComparison.psimps[OF "6.hyps"(1)]
    by (rule outcome_bind[OF "6.hyps"(2) "6.hyps"(3)])
next
  case (7 left ts)
  show ?case
  proof (cases "isCompOp (current ts)")
    case True
    show ?thesis
      unfolding compLoop.psimps[OF "7.hyps"(1)] if_P[OF True]
      by (rule outcome_advance, rule outcome_bind[OF "7.hyps"(2)[OF True] "7.hyps"(3)[OF True]])
  next
    case False
    show ?thesis
      unfolding compLoop.psimps[OF "7.hyps"(1)] if_not_P[OF False] by simp
  qed
next
  case (8 ts)
  show ?case
    unfolding parseInNotIn.psimps[OF "8.hyps"(1)]
    by (rule outcome_bind[OF "8.hyps"(2) "8.hyps"(3)])
next
  case (9 left ts)
  show ?case
  proof (cases "matchTok OPERATOR (Some ''IN'') ts \<or> matchTok OPERATOR (Some ''NOTIN'') ts")
    case True
    show ?thesis
      unfolding inLoop.psimps[OF "9.hyps"(1)] if_P[OF True]
      by (rule outcome_advance, rule outcome_bind[OF "9.hyps"(2)[OF True] "9.hyps"(3)[OF True]])
  next
    case False
    show ?thesis
      unfolding inLoop.psimps[OF "9.hyps"(1)] if_not_P[OF False] by simp
  qed
next
  case (10 ts)
  show ?case
    unfolding parseAddSub.psimps[OF "10.hyps"(1)]
    by (rule outcome_bind[OF "10.hyps"(2) "10.hyps"(3)])
next
  case (11 left ts)
  show ?case
  proof (cases "isAddOp (current ts)")
    case True
    show ?thesis
      unfolding addLoop.psimps[OF "11.hyps"(1)] if_P[OF True]
      by (rule outcome_advance, rule outcome_bind[OF "11.hyps"(2)[OF True] "11.hyps"(3)[OF True]])
  next
    case False
    show ?thesis
      unfolding addLoop.psimps[OF "11.hyps"(1)] if_not_P[OF False] by simp
  qed
next
  case (12 ts)
  show ?case
    unfolding parseMulDiv.psimps[OF "12.hyps"(1)]
    by (rule outcome_bind[OF "12.hyps"(2) "12.hyps"(3)])
next
  case (13 left ts)
  show ?case
  proof (cases "isMulOp (current ts)")
    case True
    show ?thesis
      unfolding mulLoop.psimps[OF "13.hyps"(1)] if_P[OF True]
      by (rule outcome_advance, rule outcome_bind[OF "13.hyps"(2)[OF True] "13.hyps"(3)[OF True]])
  next
    case False
    show ?thesis
      unfolding mulLoop.psimps[OF "13.hyps"(1)] if_not_P[OF False] by simp
  qed
next
  case (14 ts)
  show ?case
  proof -
    note dom = "14.hyps"(1)
    consider (paren) "ttype (current ts) = LPAREN"
      | (brace) "ttype (current ts) \<noteq> LPAREN" "ttype (current ts) = LBRACE"
      | (lit) "ttype (current ts) \<noteq> LPAREN" "ttype (current ts) \<noteq> LBRACE"
          "ttype (current ts) = STRING \<or> ttype (current ts) = NUMBER \<or> ttype (current ts) = BOOLEAN
           \<or> ttype (current ts) = NULL"
      | (ident) "ttype (current ts) \<noteq> LPAREN" "ttype (current ts) \<noteq> LBRACE"
          "ttype (current ts) \<noteq> STRING" "ttype (current ts) \<noteq> NUMBER"
          "ttype (current ts) \<noteq> BOOLEAN" "ttype (current ts) \<noteq> NULL"
          "ttype (current ts) = IDENTIFIER"
      | (minus) "ttype (current ts) \<noteq> LPAREN" "ttype (current ts) \<noteq> LBRACE"
          "ttype (current ts) \<noteq> STRING" "ttype (current ts) \<noteq> NUMBER"
          "ttype (current ts) \<noteq> BOOLEAN" "ttype (current ts) \<noteq> NULL"
          "ttype (current ts) \<noteq> IDENTIFIER"
          "ttype (current ts) = OPERATOR \<and> tvalue (current ts) = ''-''"
      | (other) "ttype (current ts) \<noteq> LPAREN" "ttype (current ts) \<noteq> LBRACE"
          "ttype (current ts) \<noteq> STRING" "ttype (current ts) \<noteq> NUMBER"
          "ttype (current ts) \<noteq> BOOLEAN" "ttype (current ts) \<noteq> NULL"
          "ttype (current ts) \<noteq> IDENTIFIER"
          "\<not> (ttype (current ts) = OPERATOR \<and> tvalue (current ts) = ''-'')"
      by blast
    then show ?thesis
    proof cases
      case paren
      have "outcome (advance ts)
          (case parseOr (advance ts) of Inl e \<Rightarrow> Inl e
           | Inr (expr, ts1) \<Rightarrow>
               (case expect RPAREN ts1 of Inl e \<Rightarrow> Inl e | Inr (t, ts2) \<Rightarrow> Inr (expr, ts2)))"
        by (rule outcome_bind[OF "14.hyps"(2)[OF paren]]) (rule outcome_bind[OF outcome_expect], simp)
      then show ?thesis
        unfolding parsePrimary.psimps[OF dom] if_P[OF paren] by (rule outcome_advance)
    next
      case brace
      show ?thesis
        using "14.hyps"(3)[OF brace] brace by (simp add: parsePrimary.psimps[OF dom])
    next
      case lit
      then show ?thesis
        by (auto simp: parsePrimary.psimps[OF dom] advance_le)
    next
      case ident
      show ?thesis
        using "14.hyps"(4)[OF ident] ident by (simp add: parsePrimary.psimps[OF dom])
    next
      case minus
      have "outcome (advance ts)
          (case parsePrimary (advance ts) of Inl e \<Rightarrow> Inl e
           | Inr (operand, ts1) \<Rightarrow> Inr (Node NUnary ''-'' (Some [operand]) (''-'' @ raw operand), ts1))"
        by (rule outcome_bind[OF "14.hyps"(5)[OF minus]]) simp
      then have "outcome ts
          (case parsePrimary (advance ts) of Inl e \<Rightarrow> Inl e
           | Inr (operand, ts1) \<Rightarrow> Inr (Node NUnary ''-'' (Some [operand]) (''-'' @ raw operand), ts1))"
        by (rule outcome_advance)
      then show ?thesis
        using minus by (simp add: parsePrimary.psimps[OF dom])
    next
      case other
      then show ?thesis
        by (auto simp: parsePrimary.psimps[OF dom])
    qed
  qed
next
  case (15 ts)
  show ?case
  proof (cases "matchTok LPAREN None (advance ts)")
    case True
    have args: "outcome (advance (advance ts))
        (if \<not> matchTok RPAREN None (advance (advance ts)) then
           (case parseOr (advance (advance ts)) of
              Inl e \<Rightarrow> Inl e
            | Inr (a, ts1) \<Rightarrow> argsLoop [a] ts1)
         else Inr ([], advance (advance ts)))"
    proof (cases "matchTok RPAREN None (advance (advance ts))")
      case False
      show ?thesis
        unfolding if_P[OF False]
        by (rule outcome_bind[OF "15.hyps"(2)[OF True False] "15.hyps"(3)[OF True False]])
    next
      case True
      then show ?thesis by simp
    qed
    have "outcome (advance (advance ts))
        (case (if \<not> matchTok RPAREN None (advance (advance ts)) then
                 (case parseOr (advance (advance ts)) of
                    Inl e \<Rightarrow> Inl e
                  | Inr (a, ts1) \<Rightarrow> argsLoop [a] ts1)
               else Inr ([], advance (advance ts))) of
           Inl e \<Rightarrow> Inl e
         | Inr (args, ts2) \<Rightarrow>
             (case expect RPAREN ts2 of
                Inl e \<Rightarrow> Inl e
              | Inr (t, ts3) \<Rightarrow>
                  Inr (Node NFunction (toUpperCase (tvalue (current ts))) (Some args)
                         (tvalue (current ts) @ ''('' @ joinWith '', '' (map raw args) @ '')''), ts3)))"
      by (rule outcome_map[OF args]) (rule outcome_map[OF outcome_expect], simp)
    then show ?thesis
      unfolding parseIdentifierOrFunction.psimps[OF "15.hyps"(1)] if_P[OF True]
      by (rule outcome_advance[OF outcome_advance])
  next
    case False
    have "outcome (advance ts)
        (case varLoop (tvalue (current ts)) (tvalue (current ts)) (advance ts) of
           Inl e \<Rightarrow> Inl e
         | Inr ((name, rawText), ts1) \<Rightarrow> Inr (Node NVariable name None rawText, ts1))"
      by (rule outcome_map[OF "15.hyps"(4)[OF False]]) (simp split: prod.splits)
    then show ?thesis
      unfolding parseIdentifierOrFunction.psimps[OF "15.hyps"(1)] if_not_P[OF False]
      by (rule outcome_advance)
  qed
next
  case (16 args ts)
  show ?case
  proof (cases "matchTok COMMA None ts")
    case True
    show ?thesis
      unfolding argsLoop.psimps[OF "16.hyps"(1)] if_P[OF True]
      by (rule outcome_advance, rule outcome_bind[OF "16.hyps"(2)[OF True] "16.hyps"(3)[OF True]])
  next
    case False
    show ?thesis
      unfolding argsLoop.psimps[OF "16.hyps"(1)] if_not_P[OF False] by simp
  qed
next
  case (17 name rawText ts)
  show ?case
  proof (cases "matchTok DOT None ts")
    case dot: True
    show ?thesis
    proof (cases "matchTok IDENTIFIER None (advance ts)")
      case True
      from "17.hyps"(2)[OF dot True]
      have "outcome ts (varLoop (name @ ''.'' @ tvalue (current (advance ts)))
          (rawText @ ''.'' @ tvalue (current (advance ts))) (advance (advance ts)))"
        by (rule outcome_advance[OF outcome_advance])
      then show ?thesis using dot True by (simp add: varLoop.psimps[OF "17.hyps"(1)])
    next
      case False
      from "17.hyps"(3)[OF dot False]
      have "outcome ts (varLoop name rawText (advance ts))" by (rule outcome_advance)
      then show ?thesis using dot False by (simp add: varLoop.psimps[OF "17.hyps"(1)])
    qed
  next
    case noDot: False
    show ?thesis
    proof (cases "matchTok LBRACKET None ts")
      case br: True
      define inner where "inner =
        (if matchTok STRING None (advance ts) then
           Inr ((name @ ''['' @ quoted (tvalue (current (advance ts))) @ '']'',
                 rawText @ ''['' @ quoted (tvalue (current (advance ts))) @ '']''),
                advance (advance ts))
         else if matchTok IDENTIFIER None (advance ts) \<or> matchTok NUMBER None (advance ts) then
           Inr ((name @ ''['' @ tvalue (current (advance ts)) @ '']'',
                 rawText @ ''['' @ tvalue (current (advance ts)) @ '']''),
                advance (advance ts))
         else
           (case parseOr (advance ts) of
              Inl e \<Rightarrow> Inl e
            | Inr (expr, ts1) \<Rightarrow>
                Inr ((name @ ''['' @ raw expr @ '']'', rawText @ ''['' @ raw expr @ '']''), ts1)))"
      have i: "outcome (advance ts) inner"
      proof (cases "matchTok STRING None (advance ts)
          \<or> matchTok IDENTIFIER None (advance ts) \<or> matchTok NUMBER None (advance ts)")
        case True
        then show ?thesis by (auto simp: inner_def advance_le)
      next
        case False
        then have f: "\<not> matchTok STRING None (advance ts)"
          "\<not> (matchTok IDENTIFIER None (advance ts) \<or> matchTok NUMBER None (advance ts))"
          by auto
        have "outcome (advance ts)
            (case parseOr (advance ts) of
               Inl e \<Rightarrow> Inl e
             | Inr (expr, ts1) \<Rightarrow>
                 Inr ((name @ ''['' @ raw expr @ '']'', rawText @ ''['' @ raw expr @ '']''), ts1))"
          by (rule outcome_map[OF "17.hyps"(4)[OF noDot br f]]) simp
        then show ?thesis using f by (simp add: inner_def)
      qed
      have "outcome (advance ts)
          (case inner of
             Inl e \<Rightarrow> Inl e
           | Inr ((name', rawText'), ts2) \<Rightarrow>
               (case expect RBRACKET ts2 of
                  Inl e \<Rightarrow> Inl e
                | Inr (t, ts3) \<Rightarrow> varLoop name' rawText' ts3))"
      proof (rule outcome_bind[OF i])
        fix b x y
        assume b: "inner = Inr b" and xy: "(x, y) = b"
        obtain n' r' where x: "(n', r') = x" by (cases x) auto
        have "outcome y (case expect RBRACKET y of Inl e \<Rightarrow> Inl e | Inr (t, ts3) \<Rightarrow> varLoop n' r' ts3)"
          by (rule outcome_bind[OF outcome_expect])
             (rule "17.hyps"(5)[OF noDot br b[unfolded inner_def] xy x])
        then show "outcome y (case x of (name', rawText') \<Rightarrow>
            (case expect RBRACKET y of Inl e \<Rightarrow> Inl e | Inr (t, ts3) \<Rightarrow> varLoop name' rawText' ts3))"
          by (simp add: x[symmetric])
      qed
      then have "outcome ts
          (case inner of
             Inl e \<Rightarrow> Inl e
           | Inr ((name', rawText'), ts2) \<Rightarrow>
               (case expect RBRACKET ts2 of
                  Inl e \<Rightarrow> Inl e
                | Inr (t, ts3) \<Rightarrow> varLoop name' rawText' ts3))"
        by (rule outcome_advance)
      then show ?thesis
        unfolding inner_def varLoop.psimps[OF "17.hyps"(1)] if_not_P[OF noDot] if_P[OF br] .
    next
      case False
      then show ?thesis using noDot by (simp add: varLoop.psimps[OF "17.hyps"(1)])
    qed
  qed
next
  case (18 ts)
  show ?case
    unfolding parseArray.psimps[OF "18.hyps"(1)]
  proof (rule outcome_bind[OF outcome_expect])
    fix b t ts1
    assume e: "expect LBRACE ts = Inr b" and b: "(t, ts1) = b"
    have mid: "outcome ts1
        (if \<not> matchTok RBRACE None ts1 then
           (case parseOr ts1 of
              Inl e \<Rightarrow> Inl e
            | Inr (a, ts2) \<Rightarrow> elementsLoop [a] ts2)
         else Inr ([], ts1))"
    proof (cases "matchTok RBRACE None ts1")
      case True
      then show ?thesis by simp
    next
      case False
      show ?thesis
        unfolding if_P[OF False]
        by (rule outcome_bind[OF "18.hyps"(2)[OF e b False] "18.hyps"(3)[OF e b False]])
    qed
    show "outcome ts1
        (case (if \<not> matchTok RBRACE None ts1 then
                 (case parseOr ts1 of
                    Inl e \<Rightarrow> Inl e
                  | Inr (a, ts2) \<Rightarrow> elementsLoop [a] ts2)
               else Inr ([], ts1)) of
           Inl e \<Rightarrow> Inl e
         | Inr (elements, ts3) \<Rightarrow>
             (case expect RBRACE ts3 of
                Inl e \<Rightarrow> Inl e
              | Inr (t', ts4) \<Rightarrow>
                  Inr (Node NArray (''{'' @ joinWith '', '' (map raw elements) @ ''}'') (Some elements)
                         (''{'' @ joinWith '', '' (map raw elements) @ ''}''), ts4)))"
      by (rule outcome_bind[OF mid], rule outcome_map[OF outcome_expect]) simp
  qed
next
  case (19 elements ts)
  show ?case
  proof (cases "matchTok COMMA None ts")
    case comma: True
    show ?thesis
    proof (cases "matchTok RBRACE None (advance ts)")
      case True
      then have nn: "\<not> \<not> matchTok RBRACE None (advance ts)" by simp
      from "19.hyps"(4)[OF comma nn]
      have "outcome ts (elementsLoop elements (advance ts))" by (rule outcome_advance)
      then show ?thesis using comma True by (simp add: elementsLoop.psimps[OF "19.hyps"(1)])
    next
      case False
      have "outcome ts
          (case parseOr (advance ts) of
             Inl e \<Rightarrow> Inl e
           | Inr (a, ts1) \<Rightarrow> elementsLoop (elements @ [a]) ts1)"
        by (rule outcome_advance,
            rule outcome_bind[OF "19.hyps"(2)[OF comma False] "19.hyps"(3)[OF comma False]])
      then show ?thesis
        unfolding elementsLoop.psimps[OF "19.hyps"(1)] if_P[OF comma] if_P[OF False] .
    qed
  next
    case False
    then show ?thesis by (simp add: elementsLoop.psimps[OF "19.hyps"(1)])
  qed
qed

fun tokensOf where
  "tokensOf (Inl (Inl (Inl (Inl ts)))) = ts"
| "tokensOf (Inl (Inl (Inl (Inr (left, ts))))) = ts"
| "tokensOf (Inl (Inl (Inr (Inl ts)))) = ts"
| "tokensOf (Inl (Inl (Inr (Inr (left, ts))))) = ts"
| "tokensOf (Inl (Inr (Inl (Inl ts)))) = ts"
| "tokensOf (Inl (Inr (Inl (Inr ts)))) = ts"
| "tokensOf (Inl (Inr (Inr (Inl (left, ts))))) = ts"
| "tokensOf (Inl (Inr (Inr (Inr (Inl ts))))) = ts"
| "tokensOf (Inl (Inr (Inr (Inr (Inr (left, ts)))))) = ts"
| "tokensOf (Inr (Inl (Inl (Inl ts)))) = ts"
| "tokensOf (Inr (Inl (Inl (Inr (left, ts))))) = ts"
| "tokensOf (Inr (Inl (Inr (Inl ts)))) = ts"
| "tokensOf (Inr (Inl (Inr (Inr (Inl (left, ts)))))) = ts"
| "tokensOf (Inr (Inl (Inr (Inr (Inr ts))))) = ts"
| "tokensOf (Inr (Inr (Inl (Inl ts)))) = ts"
| "tokensOf (Inr (Inr (Inl (Inr (args, ts))))) = ts"
| "tokensOf (Inr (Inr (Inr (Inl (name, rawText, ts))))) = ts"
| "tokensOf (Inr (Inr (Inr (Inr (Inl ts))))) = ts"
| "tokensOf (Inr (Inr (Inr (Inr (Inr (elements, ts)))))) = ts"

fun rankOf where
  "rankOf (Inl (Inl (Inl (Inl ts)))) = (10::nat)"
| "rankOf (Inl (Inl (Inl (Inr (left, ts))))) = 0"
| "rankOf (Inl (Inl (Inr (Inl ts)))) = 9"
| "rankOf (Inl (Inl (Inr (Inr (left, ts))))) = 0"
| "rankOf (Inl (Inr (Inl (Inl ts)))) = 8"
| "rankOf (Inl (Inr (Inl (Inr ts)))) = 7"
| "rankOf (Inl (Inr (Inr (Inl (left, ts))))) = 0"
| "rankOf (Inl (Inr (Inr (Inr (Inl ts))))) = 6"
| "rankOf (Inl (Inr (Inr (Inr (Inr (left, ts)))))) = 0"
| "rankOf (Inr (Inl (Inl (Inl ts)))) = 5"
| "rankOf (Inr (Inl (Inl (Inr (left, ts))))) = 0"
| "rankOf (Inr (Inl (Inr (Inl ts)))) = 4"
| "rankOf (Inr (Inl (Inr (Inr (Inl (left, ts)))))) = 0"
| "rankOf (Inr (Inl (Inr (Inr (Inr ts))))) = 3"
| "rankOf (Inr (Inr (Inl (Inl ts)))) = 2"
| "rankOf (Inr (Inr (Inl (Inr (args, ts))))) = 0"
| "rankOf (Inr (Inr (Inr (Inl (name, rawText, ts))))) = 0"
| "rankOf (Inr (Inr (Inr (Inr (Inl ts))))) = 2"
| "rankOf (Inr (Inr (Inr (Inr (Inr (elements, ts)))))) = 0"

lemma outcomeD: "outcome ts p \<Longrightarrow> p = Inr (x, r) \<Longrightarrow> length r \<le> length ts"
  by simp

lemmas parse_le =
  parseOr_outcome[THEN outcomeD]
  orLoop_outcome[THEN outcomeD]
  parseAnd_outcome[THEN outcomeD]
  andLoop_outcome[THEN outcomeD]
  parseNot_outcome[THEN outcomeD]
  parseComparison_outcome[THEN outcomeD]
  compLoop_outcome[THEN outcomeD]
  parseInNotIn_outcome[THEN outcomeD]
  inLoop_outcome[THEN outcomeD]
  parseAddSub_outcome[THEN outcomeD]
  addLoop_outcome[THEN outcomeD]
  parseMulDiv_outcome[THEN outcomeD]
  mulLoop_outcome[THEN outcomeD]
  parsePrimary_outcome[THEN outcomeD]
  parseIdentifierOrFunction_outcome[THEN outcomeD]
  argsLoop_outcome[THEN outcomeD]
  varLoop_outcome[THEN outcomeD]
  parseArray_outcome[THEN outcomeD]
  elementsLoop_outcome[THEN outcomeD]

lemma matchTok_pos: "matchTok ty v ts \<Longrightarrow> ty \<noteq> EOF \<Longrightarrow> \<exists>n. length ts = Suc n"
  by (cases ts) (simp_all add: matchTok_def current_def mkToken_def)

lemma current_pos: "ttype (current ts) = ty \<Longrightarrow> ty \<noteq> EOF \<Longrightarrow> \<exists>n. length ts = Suc n"
  by (cases ts) (simp_all add: current_def mkToken_def)

lemma expect_less: "expect ty ts = Inr (t, r) \<Longrightarrow> ty \<noteq> EOF \<Longrightarrow> length r < length ts"
  by (auto simp: expect_def advance_def dest!: matchTok_pos split: if_splits)

lemma parser_total: "All parser_dom"
  apply (relation "measures [\<lambda>x. length (tokensOf x), rankOf]")
  apply simp
  apply (auto simp: advance_def isCompOp_def isAddOp_def isMulOp_def
      dest!: parse_le expect_less matchTok_pos current_pos split: if_splits sum.splits prod.splits)
  done

termination parseOr
  by (rule parser_total)

declare parseOr.simps [simp del]
  orLoop.simps [simp del]
  parseAnd.simps [simp del]
  andLoop.simps [simp del]
  parseNot.simps [simp del]
  parseComparison.simps [simp del]
  compLoop.simps [simp del]
  parseInNotIn.simps [simp del]
  inLoop.simps [simp del]
  parseAddSub.simps [simp del]
  addLoop.simps [simp del]
  parseMulDiv.simps [simp del]
  mulLoop.simps [simp del]
  parsePrimary.simps [simp del]
  parseIdentifierOrFunction.simps [simp del]
  argsLoop.simps [simp del]
  varLoop.simps [simp del]
  parseArray.simps [simp del]
  elementsLoop.simps [simp del]

subsection \<open>The entry point\<close>

definition parse :: "Token list \<Rightarrow> string + ExpressionNode option" where
  "parse ts =
     (if ttype (current ts) = EOF then Inr None
      else (case parseOr ts of Inl e \<Rightarrow> Inl e | Inr (node, rest) \<Rightarrow> Inr (Some node)))"

definition parseExpression :: "string \<Rightarrow> ParsedExpression" where
  "parseExpression expr =
     (if expr = [] \<or> trim expr = [] \<or> trim expr = ''='' then
        \<lparr>root = None, original = expr, isValid = False, error = Some ''Empty expression''\<rparr>
      else
        (case parse (tokenize expr) of
           Inl msg \<Rightarrow> \<lparr>root = None, original = expr, isValid = False, error = Some msg\<rparr>
         | Inr r \<Rightarrow> \<lparr>root = r, original = expr, isValid = (r \<noteq> None), error = None\<rparr>))"

text \<open>
  The call stack. A JavaScript engine raises a \<open>RangeError\<close> when a call finds the
  stack exhausted. In the recursive parser that depends on the tokens and on the
  stack the caller has left; it happens inside the \<open>try\<close> block, and the \<open>catch\<close>
  returns the message of the error. The engine is a parameter of the entry point:
  the token lists on which it runs out of stack, and the message it gives then.
  \<open>parseExpression\<close> above is the entry point on an engine that never runs out.
\<close>

record Engine =
  overflows :: "Token list \<Rightarrow> bool"
  rangeErrorMessage :: string

definition parseExpressionOn :: "Engine \<Rightarrow> string \<Rightarrow> ParsedExpression" where
  "parseExpressionOn engine expr =
     (if expr = [] \<or> trim expr = [] \<or> trim expr = ''='' then
        \<lparr>root = None, original = expr, isValid = False, error = Some ''Empty expression''\<rparr>
      else if overflows engine (tokenize expr) then
        \<lparr>root = None, original = expr, isValid = False, error = Some (rangeErrorMessage engine)\<rparr>
      else
        (case parse (tokenize expr) of
           Inl msg \<Rightarrow> \<lparr>root = None, original = expr, isValid = False, error = Some msg\<rparr>
         | Inr r \<Rightarrow> \<lparr>root = r, original = expr, isValid = (r \<noteq> None), error = None\<rparr>))"

definition unbounded :: Engine where
  "unbounded = \<lparr>overflows = (\<lambda>ts. False), rangeErrorMessage = []\<rparr>"




lemma parseExpressionOn_unbounded: "parseExpressionOn unbounded expr = parseExpression expr"
  by (simp add: parseExpressionOn_def parseExpression_def unbounded_def)









text \<open>
  C10. \<open>parseExpression\<close> does not require the tokens to be used up. On \<open>1 2\<close>
  and on \<open>X )\<close> the parser stops after the first expression, with the tokens
  \<open>2\<close> and \<open>)\<close> still unread before the end marker, and the result is valid
  with a root for the leading expression only.
\<close>

theorem parseExpression_ignores_trailing_tokens:
  "parseOr (tokenize ''1 2'')
     = Inr (Node NLiteral ''1'' None ''1'', [mkToken NUMBER ''2'' 2, mkToken EOF [] 3])
   \<and> parseExpression ''1 2''
     = \<lparr>root = Some (Node NLiteral ''1'' None ''1''), original = ''1 2'', isValid = True, error = None\<rparr>
   \<and> parseOr (tokenize ''X )'')
     = Inr (Node NVariable ''X'' None ''X'', [mkToken RPAREN '')'' 2, mkToken EOF [] 3])
   \<and> parseExpression ''X )''
     = \<lparr>root = Some (Node NVariable ''X'' None ''X''), original = ''X )'', isValid = True, error = None\<rparr>"
  by (intro conjI; code_simp)

end
